theory Spec2Isabelle
  imports Complex_Main "HOL-Library.AList" "HOL-Library.Sublist"
begin

section \<open>Values exchanged with the HTTP client\<close>

text \<open>
  A decoded JSON document, as \<^verbatim>\<open>response.json()\<close> hands it to Python: \<^verbatim>\<open>None\<close>,
  booleans, numbers, strings, lists and dicts. A dict is an association list read with
  \<open>map_of\<close>; a Python dict has no duplicate keys. Strings are lists of 8-bit characters.
\<close>

datatype json =
    JNull
  | JBool bool
  | JInt int
  | JFloat rat
  | JStr string
  | JList "json list"
  | JDict "(string \<times> json) list"

type_synonym pydict = "(string \<times> json) list"

type_synonym headers = "(string \<times> string) list"

text \<open>
  The exceptions that travel through the code: what \<^verbatim>\<open>requests.request\<close> raises, what
  \<^verbatim>\<open>response.json()\<close> raises on a body that is not JSON, the plain
  \<^verbatim>\<open>Exception("Token refresh failed")\<close> of token.py, the division by zero of
  \<^verbatim>\<open>_log_progress\<close>, and what \<^verbatim>\<open>time.sleep\<close> raises for a duration it cannot represent.
\<close>

datatype error =
    RequestException string
  | JSONDecodeError
  | Exception string
  | ZeroDivisionError
  | OverflowError

record request =
  rq_method :: string
  rq_url :: string
  rq_headers :: headers
  rq_data :: "pydict option"
  rq_params :: "pydict option"
  rq_verify :: bool

text \<open>
  A \<^verbatim>\<open>requests.Response\<close>: \<open>json_of\<close> is the result of \<^verbatim>\<open>response.json()\<close>, \<open>None\<close> when
  that call raises.
\<close>

record response =
  status_code :: int
  body_text :: string
  json_of :: "json option"

text \<open>
  The network is a parameter: it decides, from the requests issued so far and the request
  at hand, whether \<^verbatim>\<open>requests.request\<close> raises or which response it returns.
\<close>

type_synonym transport = "request list \<Rightarrow> request \<Rightarrow> error + response"

text \<open>
  Two functions of the Python runtime are parameters as well. \<^verbatim>\<open>str.upper\<close> is a function
  on strings, whatever its case mapping is. \<^verbatim>\<open>time.sleep\<close> takes a duration and either
  returns (\<open>None\<close>) or raises (\<open>Some e\<close>), as it does for a duration beyond the range of the
  platform's clock. Durations are rationals; the float values infinity and NaN are not
  modelled.
\<close>

type_synonym str_upper = "string \<Rightarrow> string"

type_synonym time_sleep = "rat \<Rightarrow> error option"

text \<open>Log records; the f-strings of the source are kept as structured entries.\<close>

datatype log_entry =
    Error_Request_failed error
  | Error_Token_refresh_failed_with_status_code int
  | Error_refreshing_token error
  | Error_during_request error
  | Info_Progress rat

text \<open>
  What the program does to the outside: the requests it issued, in order, the log records
  it emitted, and the durations it slept.
\<close>

record world =
  sent :: "request list"
  logged :: "log_entry list"
  slept :: "rat list"

section \<open>request.py\<close>

text \<open>
  \<^verbatim>\<open>make_request\<close>: one call of \<^verbatim>\<open>requests.request\<close>; a \<^verbatim>\<open>RequestException\<close> is logged
  and raised again, any other exception passes through.
\<close>

definition make_request :: "transport \<Rightarrow> request \<Rightarrow> world \<Rightarrow> (error + response) \<times> world" where
  "make_request tr rq w =
     (let w1 = w\<lparr>sent := sent w @ [rq]\<rparr> in
      case tr (sent w) rq of
        Inr response \<Rightarrow> (Inr response, w1)
      | Inl (RequestException m) \<Rightarrow>
          (Inl (RequestException m), w1\<lparr>logged := logged w1 @ [Error_Request_failed (RequestException m)]\<rparr>)
      | Inl e \<Rightarrow> (Inl e, w1))"

section \<open>token.py\<close>

text \<open>
  \<open>access_token\<close> is an optional string: \<^verbatim>\<open>_extract_value\<close> returns \<^verbatim>\<open>None\<close> when it
  finds nothing, and that result is stored as it is.
\<close>

record token =
  token_endpoint :: string
  client_id :: string
  client_secret :: string
  refresh_token :: string
  access_token :: "string option"
  access_token_path :: "string list"
  refresh_token_path :: "string list"

definition Token_init :: "string \<Rightarrow> string \<Rightarrow> string \<Rightarrow> string \<Rightarrow> string list \<Rightarrow> string list \<Rightarrow> token" where
  "Token_init endpoint secret rtok cid apath rpath =
     \<lparr>token_endpoint = endpoint, client_id = cid, client_secret = secret,
      refresh_token = rtok, access_token = Some [],
      access_token_path = apath, refresh_token_path = rpath\<rparr>"

text \<open>\<^verbatim>\<open>dict.get(key)\<close>: the value, or \<^verbatim>\<open>None\<close> for a key that is not there.\<close>

definition dict_get :: "pydict \<Rightarrow> string \<Rightarrow> json" where
  "dict_get d key = (case map_of d key of None \<Rightarrow> JNull | Some v \<Rightarrow> v)"

text \<open>
  The \<^verbatim>\<open>for key in path\<close> loop of \<^verbatim>\<open>_extract_value\<close>: \<open>None\<close> is the early
  \<^verbatim>\<open>return None\<close>, \<open>Some data\<close> the value the loop ends with.
\<close>

fun extract_loop :: "json \<Rightarrow> string list \<Rightarrow> json option" where
  "extract_loop data [] = Some data"
| "extract_loop data (key # path) =
     (case data of
        JDict d \<Rightarrow> extract_loop (dict_get d key) path
      | _ \<Rightarrow> None)"

definition extract_value :: "json \<Rightarrow> string list \<Rightarrow> string option" where
  "extract_value data path =
     (case extract_loop data path of
        None \<Rightarrow> None
      | Some (JStr s) \<Rightarrow> Some s
      | Some _ \<Rightarrow> None)"

text \<open>Truth value of an optional string: \<^verbatim>\<open>None\<close> and \<^verbatim>\<open>""\<close> are false.\<close>

definition truthy :: "string option \<Rightarrow> bool" where
  "truthy v = (case v of None \<Rightarrow> False | Some s \<Rightarrow> s \<noteq> [])"

definition refresh_payload :: "token \<Rightarrow> pydict" where
  "refresh_payload t =
     [(''grant_type'', JStr ''refresh_token''),
      (''refresh_token'', JStr (refresh_token t)),
      (''client_id'', JStr (client_id t)),
      (''client_secret'', JStr (client_secret t))]"

definition refresh_request :: "token \<Rightarrow> headers \<Rightarrow> request" where
  "refresh_request t hs =
     \<lparr>rq_method = ''POST'', rq_url = token_endpoint t, rq_headers = hs,
      rq_data = Some (refresh_payload t), rq_params = None, rq_verify = True\<rparr>"

text \<open>
  Lines 73-80 of \<^verbatim>\<open>refresh_access_token\<close>: the extracted access token is stored as it
  comes, the extracted refresh token only when it is true as a Python value.
\<close>

definition store_tokens :: "token \<Rightarrow> json \<Rightarrow> token" where
  "store_tokens t token_data =
     (let t1 = t\<lparr>access_token := extract_value token_data (access_token_path t)\<rparr>;
          new_refresh_token = extract_value token_data (refresh_token_path t1)
      in if truthy new_refresh_token then t1\<lparr>refresh_token := the new_refresh_token\<rparr> else t1)"

text \<open>
  \<^verbatim>\<open>Token.refresh_access_token\<close>: the result (the exception raised, or the returned access
  token), the token as the call leaves it, and the world.
\<close>

definition refresh_access_token ::
  "transport \<Rightarrow> token \<Rightarrow> headers \<Rightarrow> world \<Rightarrow> (error + string option) \<times> token \<times> world" where
  "refresh_access_token tr t hs w =
     (case make_request tr (refresh_request t hs) w of
        (Inl e, w1) \<Rightarrow> (Inl e, t, w1\<lparr>logged := logged w1 @ [Error_refreshing_token e]\<rparr>)
      | (Inr response, w1) \<Rightarrow>
          if status_code response = 200 then
            (case json_of response of
               None \<Rightarrow>
                 (Inl JSONDecodeError, t,
                  w1\<lparr>logged := logged w1 @ [Error_refreshing_token JSONDecodeError]\<rparr>)
             | Some token_data \<Rightarrow>
                 (let t2 = store_tokens t token_data in (Inr (access_token t2), t2, w1)))
          else
            (Inl (Exception ''Token refresh failed''), t,
             w1\<lparr>logged := logged w1 @
                [Error_Token_refresh_failed_with_status_code (status_code response),
                 Error_refreshing_token (Exception ''Token refresh failed'')]\<rparr>))"

text \<open>
  The specification's reading of nested extraction: the path is followed key by key, each
  step needs a mapping that contains the key.
\<close>

fun spec_follow_path :: "json \<Rightarrow> string list \<Rightarrow> json option" where
  "spec_follow_path v [] = Some v"
| "spec_follow_path (JDict d) (k # ks) =
     (case map_of d k of None \<Rightarrow> None | Some v \<Rightarrow> spec_follow_path v ks)"
| "spec_follow_path _ (k # ks) = None"

section \<open>The orchestrator: Pyllow\<close>

text \<open>
  A condition is a dict with the optional keys \<^verbatim>\<open>status_codes\<close>, \<^verbatim>\<open>messages\<close> and
  \<^verbatim>\<open>output_file\<close>; \<open>None\<close> stands for a key that is absent (or holds \<^verbatim>\<open>None\<close>).
\<close>

record condition =
  status_codes :: "int list option"
  messages :: "string list option"
  cond_output_file :: "string option"

record condition_result =
  cr_condition :: condition
  cr_results :: "string list"

text \<open>
  The fields of a \<^verbatim>\<open>Pyllow\<close> object; \<open>http_method\<close> is \<^verbatim>\<open>self.method\<close>.
\<close>

record pyllow =
  http_method :: string
  url :: string
  headers :: headers
  payloads :: "pydict list"
  params :: "pydict option"
  token :: "token option"
  save_output :: bool
  output_file :: string
  conditions :: "condition list"
  sleep_time :: rat
  verify_ssl :: bool
  loops :: int
  append_logs :: bool
  results :: "string list"
  total_requests :: int
  completed_requests :: int
  condition_results :: "condition_result list"

text \<open>
  \<^verbatim>\<open>Pyllow.__init__\<close>, arguments in the order of the signature, after the runtime's
  \<^verbatim>\<open>str.upper\<close>. \<^verbatim>\<open>payloads or [{}]\<close> and \<^verbatim>\<open>conditions or []\<close> replace \<^verbatim>\<open>None\<close> and the
  empty list.
\<close>

definition Pyllow_init ::
  "str_upper \<Rightarrow> string \<Rightarrow> string \<Rightarrow> headers \<Rightarrow> pydict list option \<Rightarrow> pydict option \<Rightarrow>
   token option \<Rightarrow> bool \<Rightarrow> string \<Rightarrow> condition list option \<Rightarrow> rat \<Rightarrow> bool \<Rightarrow> int \<Rightarrow> bool \<Rightarrow>
   pyllow" where
  "Pyllow_init up m u hs ps qs tok so ofile conds st vs lp al =
     (let payloads1 = (case ps of None \<Rightarrow> [[]] | Some [] \<Rightarrow> [[]] | Some (x # xs) \<Rightarrow> x # xs);
          conditions1 = (case conds of None \<Rightarrow> [] | Some cs \<Rightarrow> cs)
      in \<lparr>http_method = m, url = u, headers = hs, payloads = payloads1, params = qs, token = tok,
          save_output = so, output_file = ofile, conditions = conditions1, sleep_time = st,
          verify_ssl = vs, loops = lp, append_logs = al, results = [],
          total_requests =
            (if up m = ''POST'' then int (length payloads1) * lp else lp),
          completed_requests = 0,
          condition_results = map (\<lambda>c. \<lparr>cr_condition = c, cr_results = []\<rparr>) conditions1\<rparr>)"

text \<open>
  The test of one condition in \<^verbatim>\<open>_process_response\<close>: the flag \<open>match\<close> starts true and
  each of the two checks may clear it. \<^verbatim>\<open>message in content\<close> is \<open>sublist\<close>.
\<close>

definition condition_match :: "condition \<Rightarrow> response \<Rightarrow> bool" where
  "condition_match c r =
     (let content = body_text r;
          match0 = True;
          match1 = (case status_codes c of
                      Some (x # xs) \<Rightarrow> if status_code r \<notin> set (x # xs) then False else match0
                    | _ \<Rightarrow> match0);
          match2 = (case messages c of
                      Some (m # ms) \<Rightarrow>
                        if \<not> list_ex (\<lambda>message. sublist message content) (m # ms) then False
                        else match1
                    | _ \<Rightarrow> match1)
      in match2)"

fun match_conditions :: "response \<Rightarrow> condition_result list \<Rightarrow> condition_result list" where
  "match_conditions r [] = []"
| "match_conditions r (cr # crs) =
     (if condition_match (cr_condition cr) r
      then cr\<lparr>cr_results := cr_results cr @ [body_text r]\<rparr> else cr)
     # match_conditions r crs"

definition process_response :: "pyllow \<Rightarrow> response \<Rightarrow> pyllow" where
  "process_response s r =
     (let content = body_text r;
          s1 = (if save_output s then s\<lparr>results := results s @ [content]\<rparr> else s)
      in s1\<lparr>condition_results := match_conditions r (condition_results s1)\<rparr>)"

text \<open>The f-string \<^verbatim>\<open>f"Bearer {access_token}"\<close>; \<^verbatim>\<open>None\<close> prints as \<^verbatim>\<open>None\<close>.\<close>

definition bearer :: "string option \<Rightarrow> string" where
  "bearer tok = ''Bearer '' @ (case tok of None \<Rightarrow> ''None'' | Some a \<Rightarrow> a)"

text \<open>The arguments both calls of \<^verbatim>\<open>make_request\<close> in \<^verbatim>\<open>_make_request\<close> pass.\<close>

definition build_request :: "str_upper \<Rightarrow> pyllow \<Rightarrow> pydict \<Rightarrow> request" where
  "build_request up s payload =
     \<lparr>rq_method = http_method s, rq_url = url s, rq_headers = headers s,
      rq_data = (if up (http_method s) = ''POST'' then Some payload else None),
      rq_params = (if up (http_method s) = ''GET'' then params s else None),
      rq_verify = verify_ssl s\<rparr>"

text \<open>Lines 123-124: the Authorization header is set when a token with an access token is there.\<close>

definition set_authorization :: "pyllow \<Rightarrow> pyllow" where
  "set_authorization s =
     (case token s of
        None \<Rightarrow> s
      | Some t \<Rightarrow>
          if truthy (access_token t)
          then s\<lparr>headers := AList.update ''Authorization'' (bearer (access_token t)) (headers s)\<rparr>
          else s)"

text \<open>
  Lines 136-145, the branch taken on a 401 with a token: refresh, overwrite the header, send
  again. An exception of the refresh or of the second send leaves the branch at once.
\<close>

definition refresh_and_retry ::
  "str_upper \<Rightarrow> transport \<Rightarrow> pydict \<Rightarrow> token \<Rightarrow> pyllow \<Rightarrow> world \<Rightarrow>
   (error + response) \<times> pyllow \<times> world" where
  "refresh_and_retry up tr payload t s w =
     (case refresh_access_token tr t (headers s) w of
        (Inl e, t1, w1) \<Rightarrow> (Inl e, s\<lparr>token := Some t1\<rparr>, w1)
      | (Inr a, t1, w1) \<Rightarrow>
          let s1 = s\<lparr>token := Some t1,
                     headers := AList.update ''Authorization'' (bearer (access_token t1)) (headers s)\<rparr>
          in (case make_request tr (build_request up s1 payload) w1 of
                (res, w2) \<Rightarrow> (res, s1, w2)))"

text \<open>The body of the \<^verbatim>\<open>try\<close> of \<^verbatim>\<open>_make_request\<close>; \<open>Inl e\<close> is the exception that leaves it.\<close>

fun make_request_try ::
  "str_upper \<Rightarrow> transport \<Rightarrow> pydict \<Rightarrow> pyllow \<times> world \<Rightarrow> (error + unit) \<times> pyllow \<times> world" where
  "make_request_try up tr payload (s, w) =
     (let s1 = set_authorization s in
      case make_request tr (build_request up s1 payload) w of
        (Inl e, w1) \<Rightarrow> (Inl e, s1, w1)
      | (Inr response, w1) \<Rightarrow>
          if status_code response = 401 \<and> token s1 \<noteq> None then
            (case refresh_and_retry up tr payload (the (token s1)) s1 w1 of
               (Inl e, s2, w2) \<Rightarrow> (Inl e, s2, w2)
             | (Inr response2, s2, w2) \<Rightarrow> (Inr (), process_response s2 response2, w2))
          else (Inr (), process_response s1 response, w1))"

text \<open>\<^verbatim>\<open>Pyllow._make_request\<close>: the \<^verbatim>\<open>try\<close> body, and the handler that logs the exception.\<close>

definition pyllow_make_request ::
  "str_upper \<Rightarrow> transport \<Rightarrow> pydict \<Rightarrow> pyllow \<times> world \<Rightarrow> pyllow \<times> world" where
  "pyllow_make_request up tr payload st =
     (case make_request_try up tr payload st of
        (Inl e, s1, w1) \<Rightarrow> (s1, w1\<lparr>logged := logged w1 @ [Error_during_request e]\<rparr>)
      | (Inr u, s1, w1) \<Rightarrow> (s1, w1))"

text \<open>\<^verbatim>\<open>_log_progress\<close>; the division raises when \<open>total_requests\<close> is zero.\<close>

definition log_progress :: "pyllow \<Rightarrow> world \<Rightarrow> error + world" where
  "log_progress s w =
     (if total_requests s = 0 then Inl ZeroDivisionError
      else Inr (w\<lparr>logged := logged w @
             [Info_Progress (of_int (completed_requests s) / of_int (total_requests s) * 100)]\<rparr>))"

text \<open>
  The four statements that follow each other in both branches of \<^verbatim>\<open>run\<close>: dispatch, count,
  log the progress, sleep. They are outside any \<^verbatim>\<open>try\<close>, so an exception of \<^verbatim>\<open>_log_progress\<close>
  or of \<^verbatim>\<open>time.sleep\<close> leaves \<^verbatim>\<open>run\<close>. The result is the exception that leaves, if any,
  with the object and the world as they are at that moment.
\<close>

definition dispatch_step ::
  "str_upper \<Rightarrow> time_sleep \<Rightarrow> transport \<Rightarrow> pydict \<Rightarrow> pyllow \<times> world \<Rightarrow>
   error option \<times> pyllow \<times> world" where
  "dispatch_step up sl tr payload st =
     (case pyllow_make_request up tr payload st of
        (s1, w1) \<Rightarrow>
          (let s2 = s1\<lparr>completed_requests := completed_requests s1 + 1\<rparr> in
           (case log_progress s2 w1 of
              Inl e \<Rightarrow> (Some e, s2, w1)
            | Inr w2 \<Rightarrow>
                if 0 < sleep_time s2 then
                  (case sl (sleep_time s2) of
                     Some e \<Rightarrow> (Some e, s2, w2)
                   | None \<Rightarrow> (None, s2, w2\<lparr>slept := slept w2 @ [sleep_time s2]\<rparr>))
                else (None, s2, w2))))"

text \<open>\<^verbatim>\<open>for payload in self.payloads\<close>.\<close>

fun payload_loop ::
  "str_upper \<Rightarrow> time_sleep \<Rightarrow> transport \<Rightarrow> pydict list \<Rightarrow> pyllow \<times> world \<Rightarrow>
   error option \<times> pyllow \<times> world" where
  "payload_loop up sl tr [] st = (None, st)"
| "payload_loop up sl tr (payload # rest) st =
     (case dispatch_step up sl tr payload st of
        (Some e, st1) \<Rightarrow> (Some e, st1)
      | (None, st1) \<Rightarrow> payload_loop up sl tr rest st1)"

text \<open>The body of \<^verbatim>\<open>for _ in range(self.loops)\<close>.\<close>

definition loop_body ::
  "str_upper \<Rightarrow> time_sleep \<Rightarrow> transport \<Rightarrow> pyllow \<times> world \<Rightarrow> error option \<times> pyllow \<times> world" where
  "loop_body up sl tr st =
     (if up (http_method (fst st)) = ''POST'' then payload_loop up sl tr (payloads (fst st)) st
      else dispatch_step up sl tr [] st)"

fun range_loop ::
  "str_upper \<Rightarrow> time_sleep \<Rightarrow> transport \<Rightarrow> nat \<Rightarrow> pyllow \<times> world \<Rightarrow>
   error option \<times> pyllow \<times> world" where
  "range_loop up sl tr 0 st = (None, st)"
| "range_loop up sl tr (Suc n) st =
     (case loop_body up sl tr st of
        (Some e, st1) \<Rightarrow> (Some e, st1)
      | (None, st1) \<Rightarrow> range_loop up sl tr n st1)"

text \<open>
  Lines 93-106 of \<^verbatim>\<open>run\<close>, the request loop; \<^verbatim>\<open>range\<close> of a number below one is empty.
  The writing of the output files that follows it is not part of this development.
\<close>

definition run_requests ::
  "str_upper \<Rightarrow> time_sleep \<Rightarrow> transport \<Rightarrow> pyllow \<times> world \<Rightarrow> error option \<times> pyllow \<times> world" where
  "run_requests up sl tr st = range_loop up sl tr (nat (loops (fst st))) st"

section \<open>The specification's reading, and concrete inputs\<close>

text \<open>
  The condition matcher as the specification words it: each clause holds when its list is
  absent or empty, or when the response meets it; the two clauses are joined by "and".
\<close>

definition spec_status_clause :: "condition \<Rightarrow> response \<Rightarrow> bool" where
  "spec_status_clause c r =
     (case status_codes c of None \<Rightarrow> True | Some codes \<Rightarrow> codes = [] \<or> status_code r \<in> set codes)"

definition spec_message_clause :: "condition \<Rightarrow> response \<Rightarrow> bool" where
  "spec_message_clause c r =
     (case messages c of
        None \<Rightarrow> True
      | Some ms \<Rightarrow> ms = [] \<or> (\<exists>m \<in> set ms. sublist m (body_text r)))"

definition spec_matches :: "condition \<Rightarrow> response \<Rightarrow> bool" where
  "spec_matches c r \<longleftrightarrow> spec_status_clause c r \<and> spec_message_clause c r"

text \<open>
  What one dispatch with the body \<open>body\<close> sends: the request with that body; or that
  request and the token refresh; or these two and the same request again under other
  headers.
\<close>

definition dispatched :: "pydict option \<Rightarrow> request list \<Rightarrow> bool" where
  "dispatched body chunk =
     (case chunk of
        [rq1] \<Rightarrow> rq_data rq1 = body
      | [rq1, rfr] \<Rightarrow> rq_data rq1 = body
      | [rq1, rfr, rq2] \<Rightarrow> rq_data rq1 = body \<and> rq2 = rq1\<lparr>rq_headers := rq_headers rq2\<rparr>
      | _ \<Rightarrow> False)"

text \<open>Two states agree on what \<^verbatim>\<open>run\<close> iterates over, counts against and sends.\<close>

definition same_plan :: "pyllow \<Rightarrow> pyllow \<Rightarrow> bool" where
  "same_plan s s1 \<longleftrightarrow>
     http_method s1 = http_method s \<and> url s1 = url s \<and> params s1 = params s \<and>
     verify_ssl s1 = verify_ssl s \<and> payloads s1 = payloads s \<and> loops s1 = loops s \<and>
     sleep_time s1 = sleep_time s \<and> total_requests s1 = total_requests s"

text \<open>
  A runtime for concrete runs. \<open>upper_ascii\<close> maps the letters a to z to A to Z and leaves
  every other character; on a string of ASCII characters, as the methods of the runs below
  are, this is the value of \<^verbatim>\<open>str.upper\<close>. \<open>sleep_overflows_from limit\<close> is a \<^verbatim>\<open>time.sleep\<close>
  that raises \<^verbatim>\<open>OverflowError\<close> from the duration \<open>limit\<close> on; \<open>sleep_63_bits\<close> has the limit of
  a clock that counts nanoseconds in 63 bits.
\<close>

definition upper_char :: "char \<Rightarrow> char" where
  "upper_char c =
     (let n = (of_char c :: nat) in if 97 \<le> n \<and> n \<le> 122 then char_of (n - 32) else c)"

definition upper_ascii :: str_upper where
  "upper_ascii s = map upper_char s"

definition sleep_overflows_from :: "rat \<Rightarrow> time_sleep" where
  "sleep_overflows_from limit d = (if limit \<le> d then Some OverflowError else None)"

definition sleep_63_bits :: time_sleep where
  "sleep_63_bits = sleep_overflows_from (9223372036854775808 / 1000000000)"

text \<open>Networks for concrete runs: one that answers from a script, one that refuses.\<close>

definition scripted :: "(error + response) list \<Rightarrow> transport" where
  "scripted script hist rq =
     (if length hist < length script then script ! length hist
      else Inl (RequestException ''connection refused''))"

definition refuse_all :: transport where
  "refuse_all hist rq = Inl (RequestException ''connection refused'')"

definition world0 :: world where
  "world0 = \<lparr>sent = [], logged = [], slept = []\<rparr>"

definition plain_response :: "int \<Rightarrow> string \<Rightarrow> response" where
  "plain_response code body = \<lparr>status_code = code, body_text = body, json_of = None\<rparr>"

definition json_response :: "int \<Rightarrow> string \<Rightarrow> json \<Rightarrow> response" where
  "json_response code body j = \<lparr>status_code = code, body_text = body, json_of = Some j\<rparr>"

definition token0 :: token where
  "token0 = Token_init ''https://auth.test/token'' ''secret'' ''refresh0'' ''client''
              [''access_token''] [''refresh_token'']"

text \<open>Jobs: a GET job and a POST job, by token or payloads, loops and sleep time.\<close>

definition get_job :: "token option \<Rightarrow> int \<Rightarrow> rat \<Rightarrow> pyllow" where
  "get_job tok n st =
     Pyllow_init upper_ascii ''GET'' ''https://api.test/items'' [] None None tok True
       ''output.txt'' None st True n False"

definition post_job :: "pydict list option \<Rightarrow> int \<Rightarrow> rat \<Rightarrow> pyllow" where
  "post_job ps n st =
     Pyllow_init upper_ascii ''POST'' ''https://api.test/items'' [] ps None None True
       ''output.txt'' None st True n False"

text \<open>Further concrete inputs: a token after a successful refresh, payloads, a job with one
  condition, and two scripted networks for the 401 path.\<close>

definition token1 :: token where
  "token1 = token0\<lparr>access_token := Some ''tok123''\<rparr>"

definition payload_x :: "int \<Rightarrow> pydict" where
  "payload_x n = [(''x'', JInt n)]"

definition watch_job :: pyllow where
  "watch_job =
     Pyllow_init upper_ascii ''GET'' ''https://api.test/items'' [] None None None False
       ''output.txt''
       (Some [\<lparr>status_codes = Some [200], messages = Some [''ok''],
               cond_output_file = Some ''hits.txt''\<rparr>]) 0 True 1 False"

definition refresh_refused :: transport where
  "refresh_refused =
     scripted [Inr (plain_response 401 ''unauthorized''), Inr (plain_response 500 ''oops'')]"

definition refresh_granted :: transport where
  "refresh_granted =
     scripted [Inr (plain_response 401 ''unauthorized''),
               Inr (json_response 200 ''(token document)''
                      (JDict [(''access_token'', JStr ''tok123'')])),
               Inr (plain_response 401 ''still unauthorized'')]"

section \<open>Auxiliary facts\<close>

lemma upper_POST: "upper_ascii ''POST'' = ''POST''"
  by code_simp

lemma upper_GET: "upper_ascii ''GET'' = ''GET'' \<and> upper_ascii ''GET'' \<noteq> ''POST''"
  by code_simp

lemma make_request_Inr:
  "tr (sent w) rq = Inr r \<Longrightarrow> make_request tr rq w = (Inr r, w\<lparr>sent := sent w @ [rq]\<rparr>)"
  by (simp add: make_request_def)

lemma make_request_Inl:
  "tr (sent w) rq = Inl e \<Longrightarrow> \<exists>w1. make_request tr rq w = (Inl e, w1) \<and> sent w1 = sent w @ [rq]"
  by (cases e) (simp_all add: make_request_def)

lemma make_request_sent:
  "make_request tr rq w = (r, w1) \<Longrightarrow> sent w1 = sent w @ [rq]"
  by (auto simp: make_request_def Let_def split: sum.splits error.splits)

lemma refresh_access_token_sent:
  "refresh_access_token tr t hs w = (r, t1, w1) \<Longrightarrow> sent w1 = sent w @ [refresh_request t hs]"
  by (auto simp: refresh_access_token_def Let_def split: prod.splits sum.splits if_splits option.splits
      dest: make_request_sent)

lemma same_plan_refl: "same_plan s s" by (simp add: same_plan_def)

lemma same_plan_trans: "same_plan a b \<Longrightarrow> same_plan b c \<Longrightarrow> same_plan a c"
  by (simp add: same_plan_def)

lemma same_plan_process_response:
  "same_plan s (process_response s r) \<and>
   completed_requests (process_response s r) = completed_requests s \<and>
   token (process_response s r) = token s \<and> headers (process_response s r) = headers s"
  by (simp add: same_plan_def process_response_def Let_def)

lemma same_plan_set_authorization:
  "same_plan s (set_authorization s) \<and>
   completed_requests (set_authorization s) = completed_requests s"
  by (simp add: same_plan_def set_authorization_def split: option.splits)

lemma build_request_same_plan:
  "same_plan s s1 \<Longrightarrow> build_request up s1 p = (build_request up s p)\<lparr>rq_headers := headers s1\<rparr>"
  by (simp add: same_plan_def build_request_def)

lemma refresh_and_retry_trace:
  assumes "refresh_and_retry up tr payload t s w = (res, s1, w1)"
  shows "same_plan s s1 \<and> completed_requests s1 = completed_requests s \<and>
         (sent w1 = sent w @ [refresh_request t (headers s)] \<or>
          sent w1 = sent w @ [refresh_request t (headers s),
                              (build_request up s payload)\<lparr>rq_headers := headers s1\<rparr>])"
proof (cases "refresh_access_token tr t (headers s) w")
  case (fields r t1 wa)
  note sa = refresh_access_token_sent[OF fields]
  show ?thesis
  proof (cases r)
    case (Inl e)
    with assms fields sa show ?thesis
      by (auto simp: refresh_and_retry_def same_plan_def)
  next
    case (Inr a)
    let ?s1 = "s\<lparr>token := Some t1,
                 headers := AList.update ''Authorization'' (bearer (access_token t1)) (headers s)\<rparr>"
    have sp: "same_plan s ?s1" by (simp add: same_plan_def)
    obtain r2 wb where m: "make_request tr (build_request up ?s1 payload) wa = (r2, wb)"
      by (cases "make_request tr (build_request up ?s1 payload) wa")
    from make_request_sent[OF m] sa
    have "sent wb = sent w @ [refresh_request t (headers s), build_request up ?s1 payload]"
      by simp
    with assms fields Inr m build_request_same_plan[OF sp, of up payload] show ?thesis
      by (auto simp: refresh_and_retry_def Let_def same_plan_def)
  qed
qed

lemma make_request_try_trace:
  assumes "make_request_try up tr payload (s, w) = (res, s1, w1)"
  shows "same_plan s s1 \<and> completed_requests s1 = completed_requests s \<and>
         (\<exists>chunk. sent w1 = sent w @ chunk \<and>
            dispatched (rq_data (build_request up s payload)) chunk \<and>
            hd chunk = build_request up (set_authorization s) payload)"
proof -
  let ?s0 = "set_authorization s"
  let ?rq = "build_request up ?s0 payload"
  have sp0: "same_plan s ?s0" "completed_requests ?s0 = completed_requests s"
    using same_plan_set_authorization[of s] by simp_all
  have d: "rq_data ?rq = rq_data (build_request up s payload)"
    using build_request_same_plan[OF sp0(1), of up payload] by simp
  obtain r wa where m: "make_request tr ?rq w = (r, wa)"
    by (cases "make_request tr ?rq w")
  note sa = make_request_sent[OF m]
  show ?thesis
  proof (cases r)
    case (Inl e)
    with assms m have "s1 = ?s0" "w1 = wa" by (simp_all add: Let_def)
    with sp0 sa d show ?thesis
      by (simp add: dispatched_def)
  next
    case (Inr response)
    show ?thesis
    proof (cases "status_code response = 401 \<and> token ?s0 \<noteq> None")
      case False
      with assms m Inr have "s1 = process_response ?s0 response" "w1 = wa"
        by (auto simp: Let_def)
      with sp0 sa d same_plan_process_response[of ?s0 response] show ?thesis
        by (auto simp: dispatched_def intro: same_plan_trans)
    next
      case True
      obtain r2 s2 w2 where
        rr: "refresh_and_retry up tr payload (the (token ?s0)) ?s0 wa = (r2, s2, w2)"
        by (cases "refresh_and_retry up tr payload (the (token ?s0)) ?s0 wa") auto
      note t = refresh_and_retry_trace[OF rr]
      have w1: "w1 = w2" and sp: "same_plan ?s0 s1" "completed_requests s1 = completed_requests ?s0"
        using assms m Inr True rr t same_plan_process_response[of s2]
        by (auto simp: Let_def split: sum.splits intro: same_plan_trans)
      from t sa have "sent w2 = sent w @ [?rq, refresh_request (the (token ?s0)) (headers ?s0)] \<or>
          sent w2 = sent w @ [?rq, refresh_request (the (token ?s0)) (headers ?s0),
                              ?rq\<lparr>rq_headers := headers s2\<rparr>]"
        by auto
      then have "\<exists>chunk. sent w2 = sent w @ chunk \<and> dispatched (rq_data ?rq) chunk \<and> hd chunk = ?rq"
        by (auto simp: dispatched_def)
      with w1 sp sp0 d show ?thesis
        by (auto intro: same_plan_trans)
    qed
  qed
qed

lemma make_request_try_no_token:
  assumes "token s = None" and "make_request_try up tr payload (s, w) = (res, s1, w1)"
  shows "sent w1 = sent w @ [build_request up s payload] \<and> token s1 = None \<and>
         headers s1 = headers s"
proof -
  have s0: "set_authorization s = s"
    using assms(1) by (simp add: set_authorization_def)
  obtain r wa where m: "make_request tr (build_request up s payload) w = (r, wa)"
    by (cases "make_request tr (build_request up s payload) w")
  from assms m s0 make_request_sent[OF m] same_plan_process_response[of s] show ?thesis
    by (cases r) (auto simp: Let_def)
qed

lemma pyllow_make_request_trace:
  assumes "pyllow_make_request up tr payload (s, w) = (s1, w1)"
  shows "same_plan s s1 \<and> completed_requests s1 = completed_requests s \<and>
         (\<exists>chunk. sent w1 = sent w @ chunk \<and>
            dispatched (rq_data (build_request up s payload)) chunk \<and>
            hd chunk = build_request up (set_authorization s) payload) \<and>
         (token s = None \<longrightarrow>
            sent w1 = sent w @ [build_request up s payload] \<and> token s1 = None \<and>
            headers s1 = headers s)"
proof -
  obtain r sa wa where m: "make_request_try up tr payload (s, w) = (r, sa, wa)"
    by (cases "make_request_try up tr payload (s, w)") auto
  from assms m have e: "s1 = sa" "sent w1 = sent wa"
    by (auto simp: pyllow_make_request_def simp del: make_request_try.simps split: sum.splits)
  from make_request_try_trace[OF m] make_request_try_no_token[OF _ m] e show ?thesis
    by auto
qed

text \<open>The exception that leaves one step, from the counters and the sleep time.\<close>

lemma dispatch_step_trace:
  assumes "dispatch_step up sl tr payload (s, w) = (res, s1, w1)"
  shows "same_plan s s1 \<and> completed_requests s1 = completed_requests s + 1 \<and>
         (\<exists>chunk. sent w1 = sent w @ chunk \<and>
            dispatched (rq_data (build_request up s payload)) chunk \<and>
            hd chunk = build_request up (set_authorization s) payload) \<and>
         (token s = None \<longrightarrow>
            sent w1 = sent w @ [build_request up s payload] \<and> token s1 = None \<and>
            headers s1 = headers s) \<and>
         res = (if total_requests s = 0 then Some ZeroDivisionError
                else if 0 < sleep_time s then sl (sleep_time s) else None) \<and>
         (total_requests s \<noteq> 0 \<longrightarrow> logged w1 \<noteq> [] \<and>
            last (logged w1) =
              Info_Progress (of_int (completed_requests s1) / of_int (total_requests s1) * 100))"
proof -
  obtain sa wa where p: "pyllow_make_request up tr payload (s, w) = (sa, wa)"
    by (cases "pyllow_make_request up tr payload (s, w)")
  note t = pyllow_make_request_trace[OF p]
  from t have f: "total_requests sa = total_requests s" "sleep_time sa = sleep_time s"
    by (simp_all add: same_plan_def)
  from assms p f have
    a: "s1 = sa\<lparr>completed_requests := completed_requests sa + 1\<rparr>" and
    b: "sent w1 = sent wa" and
    c: "res = (if total_requests s = 0 then Some ZeroDivisionError
                else if 0 < sleep_time s then sl (sleep_time s) else None)" and
    d: "total_requests s \<noteq> 0 \<longrightarrow> logged w1 \<noteq> [] \<and>
            last (logged w1) =
              Info_Progress (of_int (completed_requests s1) / of_int (total_requests s1) * 100)"
    by (auto simp: dispatch_step_def log_progress_def Let_def split: if_splits option.splits)
  from t a b c d show ?thesis
    by (auto simp: same_plan_def)
qed

lemma payload_loop_append:
  "payload_loop up sl tr (xs @ ys) st =
     (case payload_loop up sl tr xs st of
        (Some e, st1) \<Rightarrow> (Some e, st1)
      | (None, st1) \<Rightarrow> payload_loop up sl tr ys st1)"
  by (induction xs arbitrary: st) (auto split: prod.splits option.splits)

lemma payload_loop_trace:
  assumes "payload_loop up sl tr ps (s, w) = (res, s1, w1)"
  shows "same_plan s s1 \<and>
         (\<exists>chunks. sent w1 = sent w @ concat chunks \<and>
            list_all2 (\<lambda>p chunk. dispatched (rq_data (build_request up s p)) chunk)
              (take (length chunks) ps) chunks \<and>
            length chunks \<le> length ps \<and>
            completed_requests s1 = completed_requests s + int (length chunks) \<and>
            (res = None \<longrightarrow> length chunks = length ps)) \<and>
         (token s = None \<and> res = None \<longrightarrow> sent w1 = sent w @ map (build_request up s) ps) \<and>
         (res = None \<or> total_requests s = 0 \<and> res = Some ZeroDivisionError \<or>
          0 < sleep_time s \<and> res = sl (sleep_time s))"
  using assms
proof (induction ps arbitrary: s w)
  case Nil
  then have "sent w1 = sent w @ concat []" by simp
  with Nil show ?case
    by (auto simp: same_plan_refl intro!: exI[of _ "[]"])
next
  case (Cons p ps)
  obtain r0 s0 w0 where d: "dispatch_step up sl tr p (s, w) = (r0, s0, w0)"
    by (cases "dispatch_step up sl tr p (s, w)") auto
  note t = dispatch_step_trace[OF d]
  from t obtain chunk where
    ch: "sent w0 = sent w @ chunk" "dispatched (rq_data (build_request up s p)) chunk" by blast
  from t have sp: "same_plan s s0" by blast
  show ?case
  proof (cases r0)
    case (Some e)
    with Cons.prems d have e: "res = Some e" "s1 = s0" "w1 = w0" by simp_all
    have "sent w1 = sent w @ concat [chunk]" using ch e by simp
    moreover have "list_all2 (\<lambda>p chunk. dispatched (rq_data (build_request up s p)) chunk)
              (take (length [chunk]) (p # ps)) [chunk]" using ch by simp
    moreover have "completed_requests s1 = completed_requests s + int (length [chunk])"
      using t e by simp
    moreover have "length [chunk] \<le> length (p # ps)" by simp
    ultimately have "\<exists>chunks. sent w1 = sent w @ concat chunks \<and>
            list_all2 (\<lambda>p chunk. dispatched (rq_data (build_request up s p)) chunk)
              (take (length chunks) (p # ps)) chunks \<and>
            length chunks \<le> length (p # ps) \<and>
            completed_requests s1 = completed_requests s + int (length chunks) \<and>
            (res = None \<longrightarrow> length chunks = length (p # ps))"
      using e by (intro exI[of _ "[chunk]"]) simp
    with t e Some sp show ?thesis
      by (auto split: if_splits)
  next
    case None
    with Cons.prems d have r: "payload_loop up sl tr ps (s0, w0) = (res, s1, w1)" by simp
    note ih = Cons.IH[OF r]
    from ih obtain chunks where
      c: "sent w1 = sent w0 @ concat chunks"
         "list_all2 (\<lambda>p chunk. dispatched (rq_data (build_request up s0 p)) chunk)
              (take (length chunks) ps) chunks"
         "length chunks \<le> length ps"
         "completed_requests s1 = completed_requests s0 + int (length chunks)"
         "res = None \<longrightarrow> length chunks = length ps"
      by blast
    have bd: "rq_data (build_request up s0 q) = rq_data (build_request up s q)" for q
      using build_request_same_plan[OF sp, of up q] by simp
    have "sent w1 = sent w @ concat (chunk # chunks)" using c ch by simp
    moreover have "list_all2 (\<lambda>p chunk. dispatched (rq_data (build_request up s p)) chunk)
              (take (length (chunk # chunks)) (p # ps)) (chunk # chunks)"
      using c(2) ch(2) by (simp add: bd)
    moreover have "completed_requests s1 = completed_requests s + int (length (chunk # chunks))"
      using c(4) t by simp
    moreover have "length (chunk # chunks) \<le> length (p # ps)" using c(3) by simp
    moreover have "res = None \<longrightarrow> length (chunk # chunks) = length (p # ps)" using c(5) by simp
    ultimately have ex: "\<exists>chunks. sent w1 = sent w @ concat chunks \<and>
            list_all2 (\<lambda>p chunk. dispatched (rq_data (build_request up s p)) chunk)
              (take (length chunks) (p # ps)) chunks \<and>
            length chunks \<le> length (p # ps) \<and>
            completed_requests s1 = completed_requests s + int (length chunks) \<and>
            (res = None \<longrightarrow> length chunks = length (p # ps))"
      by (intro exI[of _ "chunk # chunks"]) simp
    have sp1: "same_plan s s1" using sp ih by (blast intro: same_plan_trans)
    have f: "total_requests s0 = total_requests s" "sleep_time s0 = sleep_time s"
      using sp by (simp_all add: same_plan_def)
    have tk: "sent w1 = sent w @ map (build_request up s) (p # ps)" if "token s = None" "res = None"
    proof -
      from t that have a: "sent w0 = sent w @ [build_request up s p]" "token s0 = None"
        "headers s0 = headers s" by simp_all
      have "build_request up s0 q = build_request up s q" for q
        using sp a(3) by (simp add: build_request_def same_plan_def)
      with ih a that show ?thesis by simp
    qed
    from ih f have "res = None \<or> total_requests s = 0 \<and> res = Some ZeroDivisionError \<or>
          0 < sleep_time s \<and> res = sl (sleep_time s)" by simp
    with sp1 ex tk show ?thesis by blast
  qed
qed

lemma payload_loop_returns:
  assumes "ps \<noteq> [] \<longrightarrow> total_requests s \<noteq> 0" and "0 < sleep_time s \<longrightarrow> sl (sleep_time s) = None"
  shows "fst (payload_loop up sl tr ps (s, w)) = None"
proof (cases "payload_loop up sl tr ps (s, w)")
  case (fields res s1 w1)
  show ?thesis
  proof (cases ps)
    case Nil
    then show ?thesis by simp
  next
    case (Cons q qs)
    with assms(1) have "total_requests s \<noteq> 0" by simp
    with payload_loop_trace[OF fields] assms(2) fields show ?thesis by auto
  qed
qed

lemma payload_loop_progress:
  assumes "payload_loop up sl tr ps (s, w) = (res, s1, w1)" and "ps \<noteq> []"
    and "total_requests s \<noteq> 0"
  shows "logged w1 \<noteq> [] \<and> last (logged w1) =
           Info_Progress (of_int (completed_requests s1) / of_int (total_requests s1) * 100)"
  using assms
proof (induction ps arbitrary: s w)
  case Nil
  then show ?case by simp
next
  case (Cons p ps)
  obtain r0 s0 w0 where d: "dispatch_step up sl tr p (s, w) = (r0, s0, w0)"
    by (cases "dispatch_step up sl tr p (s, w)") auto
  note t = dispatch_step_trace[OF d]
  from t Cons.prems(3) have l0: "logged w0 \<noteq> [] \<and> last (logged w0) =
           Info_Progress (of_int (completed_requests s0) / of_int (total_requests s0) * 100)"
    and nz: "total_requests s0 \<noteq> 0"
    by (simp_all add: same_plan_def)
  show ?case
  proof (cases r0)
    case (Some e)
    with Cons.prems d l0 show ?thesis by simp
  next
    case None
    with Cons.prems d have r: "payload_loop up sl tr ps (s0, w0) = (res, s1, w1)" by simp
    show ?thesis
    proof (cases ps)
      case Nil
      with r l0 show ?thesis by simp
    next
      case (Cons q qs)
      then have "ps \<noteq> []" by simp
      from Cons.IH[OF r this nz] show ?thesis .
    qed
  qed
qed

lemma range_loop_as_payload_loop:
  "range_loop up sl tr n (s, w) =
     payload_loop up sl tr
       (concat (replicate n (if up (http_method s) = ''POST'' then payloads s else [[]]))) (s, w)"
proof (induction n arbitrary: s w)
  case 0
  then show ?case by simp
next
  case (Suc n)
  let ?ps = "if up (http_method s) = ''POST'' then payloads s else [[]]"
  have b: "loop_body up sl tr (s, w) = payload_loop up sl tr ?ps (s, w)"
    by (simp add: loop_body_def split: prod.splits option.splits)
  obtain r0 s0 w0 where p: "payload_loop up sl tr ?ps (s, w) = (r0, s0, w0)"
    by (cases "payload_loop up sl tr ?ps (s, w)") auto
  from payload_loop_trace[OF p] have f: "http_method s0 = http_method s" "payloads s0 = payloads s"
    by (simp_all add: same_plan_def)
  show ?case
    using b p Suc.IH[of s0 w0] f
    by (cases r0) (simp_all add: payload_loop_append del: payload_loop.simps)
qed

lemma run_requests_as_payload_loop:
  "run_requests up sl tr (s, w) =
     payload_loop up sl tr
       (concat (replicate (nat (loops s))
          (if up (http_method s) = ''POST'' then payloads s else [[]]))) (s, w)"
  by (simp add: run_requests_def range_loop_as_payload_loop)

lemma extract_loop_spec:
  "extract_loop data path = Some v \<Longrightarrow> v \<noteq> JNull \<Longrightarrow> spec_follow_path data path = Some v"
proof (induction data path rule: extract_loop.induct)
  case (1 data)
  then show ?case by simp
next
  case (2 data key path)
  then obtain d where d: "data = JDict d" by (cases data) auto
  show ?case
  proof (cases "map_of d key")
    case None
    with 2 d show ?thesis by (cases path) (auto simp: dict_get_def)
  next
    case (Some x)
    with 2 d show ?thesis by (auto simp: dict_get_def)
  qed
qed

lemma spec_extract_loop:
  "spec_follow_path data path = Some v \<Longrightarrow> extract_loop data path = Some v"
  by (induction data path rule: spec_follow_path.induct)
     (auto split: option.splits simp: dict_get_def)

lemma extract_value_Some:
  "extract_value data path = Some s \<longleftrightarrow> spec_follow_path data path = Some (JStr s)"
  unfolding extract_value_def
  using extract_loop_spec[of data path "JStr s"] spec_extract_loop[of data path "JStr s"]
  by (auto split: option.splits json.splits)

text \<open>
  Claim C8. Nested extraction follows the path key by key and yields the final value exactly
  when every value on the way is a mapping that contains the next key and the final value
  is a string; in every other case it yields no value. For \<^verbatim>\<open>{"a":{"b":"tok123"}}\<close> the
  path a, b yields tok123, the path a, c yields no value, and so does a path through a value
  that is not a dict.
\<close>
theorem extract_value_follows_path:
  "(extract_value data path = Some s \<longleftrightarrow> spec_follow_path data path = Some (JStr s)) \<and>
   (extract_value data path = None \<longleftrightarrow> (\<nexists>v. spec_follow_path data path = Some (JStr v))) \<and>
   extract_value (JDict [(''a'', JDict [(''b'', JStr ''tok123'')])]) [''a'', ''b''] = Some ''tok123'' \<and>
   extract_value (JDict [(''a'', JDict [(''b'', JStr ''tok123'')])]) [''a'', ''c''] = None \<and>
   extract_value (JDict [(''a'', JInt 7)]) [''a'', ''b''] = None"
proof -
  have "extract_value data path = None \<longleftrightarrow> (\<nexists>v. spec_follow_path data path = Some (JStr v))"
    using extract_value_Some[of data path] by (cases "extract_value data path") auto
  then show ?thesis
    by (simp add: extract_value_Some) (simp add: extract_value_def dict_get_def)
qed

theorem extract_value_follows_path_witness:
  "extract_value (JDict [(''a'', JNull)]) [''a''] = None \<and>
   spec_follow_path (JDict [(''a'', JNull)]) [''a''] = Some JNull"
  using extract_value_follows_path[of "JDict [(''a'', JNull)]" "[''a'']" "''x''"]
  by simp

text \<open>
  Claim C2. When the transport fails on the refresh request, or answers it with a status
  other than 200, \<^verbatim>\<open>refresh_access_token\<close> raises and leaves the token as it was: access
  token and refresh token keep their values.
\<close>
theorem refresh_failure_keeps_token:
  assumes "(\<exists>e. tr (sent w) (refresh_request t hs) = Inl e) \<or>
           (\<exists>r. tr (sent w) (refresh_request t hs) = Inr r \<and> status_code r \<noteq> 200)"
  shows "\<exists>e w1. refresh_access_token tr t hs w = (Inl e, t, w1)"
  using assms
proof
  assume "\<exists>e. tr (sent w) (refresh_request t hs) = Inl e"
  then obtain e where "tr (sent w) (refresh_request t hs) = Inl e" ..
  from make_request_Inl[of tr w "refresh_request t hs" e, OF this] show ?thesis
    by (auto simp: refresh_access_token_def)
next
  assume "\<exists>r. tr (sent w) (refresh_request t hs) = Inr r \<and> status_code r \<noteq> 200"
  then obtain r where "tr (sent w) (refresh_request t hs) = Inr r" "status_code r \<noteq> 200" by blast
  then show ?thesis
    by (simp add: refresh_access_token_def make_request_Inr)
qed

theorem refresh_failure_keeps_token_witness:
  "scripted [Inr (plain_response 500 ''oops'')] (sent world0) (refresh_request token1 []) =
     Inr (plain_response 500 ''oops'') \<and>
   status_code (plain_response 500 ''oops'') \<noteq> 200 \<and>
   (\<exists>e w1. refresh_access_token (scripted [Inr (plain_response 500 ''oops'')]) token1 [] world0 =
      (Inl e, token1, w1)) \<and>
   (\<exists>e w1. refresh_access_token refuse_all token1 [] world0 = (Inl e, token1, w1))"
proof -
  let ?tr = "scripted [Inr (plain_response 500 ''oops'')]"
  have h: "?tr (sent world0) (refresh_request token1 []) = Inr (plain_response 500 ''oops'') \<and>
           status_code (plain_response 500 ''oops'') \<noteq> 200"
    by (simp add: scripted_def world0_def plain_response_def)
  then have "(\<exists>e. ?tr (sent world0) (refresh_request token1 []) = Inl e) \<or>
             (\<exists>r. ?tr (sent world0) (refresh_request token1 []) = Inr r \<and> status_code r \<noteq> 200)"
    by blast
  note a = refresh_failure_keeps_token[where tr="?tr" and w=world0 and t=token1 and hs="[]", OF this]
  have "(\<exists>e. refuse_all (sent world0) (refresh_request token1 []) = Inl e) \<or>
        (\<exists>r. refuse_all (sent world0) (refresh_request token1 []) = Inr r \<and> status_code r \<noteq> 200)"
    by (simp add: refuse_all_def)
  note b = refresh_failure_keeps_token[where tr=refuse_all and w=world0 and t=token1 and hs="[]", OF this]
  from h a b show ?thesis by blast
qed

text \<open>
  Claim C3 as stated fails: a status 200 whose body does not decode as JSON makes the call
  raise before anything is stored, and the valid access token stays.
\<close>
theorem access_token_kept_on_undecodable_200:
  "scripted [Inr (plain_response 200 ''<html>'')] (sent world0) (refresh_request token1 []) =
     Inr (plain_response 200 ''<html>'') \<and>
   status_code (plain_response 200 ''<html>'') = 200 \<and>
   access_token token1 = Some ''tok123'' \<and>
   fst (refresh_access_token (scripted [Inr (plain_response 200 ''<html>'')]) token1 [] world0) =
     Inl JSONDecodeError \<and>
   access_token (fst (snd (refresh_access_token (scripted [Inr (plain_response 200 ''<html>'')])
      token1 [] world0))) = Some ''tok123''"
  by (simp add: scripted_def world0_def plain_response_def token1_def refresh_access_token_def
      make_request_def)

text \<open>
  Claim C3, amended. When the refresh request is answered with status 200 and a body that
  decodes as JSON, the stored access token is replaced by what extraction at
  \<open>access_token_path\<close> yields, also when that is no value, and the call returns it.
\<close>
theorem access_token_replaced_when_json:
  assumes "tr (sent w) (refresh_request t hs) = Inr r"
    and "status_code r = 200" and "json_of r = Some j"
  shows "\<exists>t1 w1. refresh_access_token tr t hs w =
            (Inr (extract_value j (access_token_path t)), t1, w1) \<and>
          access_token t1 = extract_value j (access_token_path t)"
  using assms
  by (simp add: refresh_access_token_def make_request_Inr store_tokens_def Let_def)

theorem access_token_replaced_when_json_witness:
  "scripted [Inr (json_response 200 ''{}'' (JDict []))] (sent world0) (refresh_request token1 []) =
     Inr (json_response 200 ''{}'' (JDict [])) \<and>
   status_code (json_response 200 ''{}'' (JDict [])) = 200 \<and>
   json_of (json_response 200 ''{}'' (JDict [])) = Some (JDict []) \<and>
   access_token token1 = Some ''tok123'' \<and>
   (\<exists>t1 w1. refresh_access_token (scripted [Inr (json_response 200 ''{}'' (JDict []))]) token1 []
        world0 = (Inr None, t1, w1) \<and> access_token t1 = None)"
proof -
  let ?r = "json_response 200 ''{}'' (JDict [])"
  have h1: "scripted [Inr ?r] (sent world0) (refresh_request token1 []) = Inr ?r"
    by (simp add: scripted_def world0_def)
  have h2: "status_code ?r = 200" and h3: "json_of ?r = Some (JDict [])"
    by (simp_all add: json_response_def)
  have e: "extract_value (JDict []) (access_token_path token1) = None"
    by (simp add: token1_def token0_def Token_init_def extract_value_def dict_get_def)
  have a: "access_token token1 = Some ''tok123''" by (simp add: token1_def)
  from access_token_replaced_when_json[where tr="scripted [Inr ?r]" and w=world0 and t=token1 and hs="[]", OF h1 h2 h3] h1 h2 h3 e a show ?thesis by simp
qed

text \<open>
  Claim C4. When the refresh request is answered with status 200, the stored refresh token
  is replaced only when extraction at \<open>refresh_token_path\<close> yields a non-empty string, and
  then by that string; otherwise it is unchanged.
\<close>
theorem refresh_token_replaced_only_if_nonempty:
  assumes "tr (sent w) (refresh_request t hs) = Inr r" and "status_code r = 200"
  shows "refresh_token (fst (snd (refresh_access_token tr t hs w))) =
           (case json_of r of
              None \<Rightarrow> refresh_token t
            | Some j \<Rightarrow>
                (case extract_value j (refresh_token_path t) of
                   None \<Rightarrow> refresh_token t
                 | Some v \<Rightarrow> if v = [] then refresh_token t else v))"
  using assms
  by (simp add: refresh_access_token_def make_request_Inr store_tokens_def Let_def truthy_def
      split: option.splits)

theorem refresh_token_replaced_only_if_nonempty_witness:
  "scripted [Inr (json_response 200 ''..'' (JDict [(''access_token'', JStr ''a1''), (''refresh_token'', JStr '''')]))]
      (sent world0) (refresh_request token0 []) =
     Inr (json_response 200 ''..'' (JDict [(''access_token'', JStr ''a1''), (''refresh_token'', JStr '''')])) \<and>
   status_code (json_response 200 ''..'' (JDict [(''access_token'', JStr ''a1''), (''refresh_token'', JStr '''')])) = 200 \<and>
   refresh_token (fst (snd (refresh_access_token
      (scripted [Inr (json_response 200 ''..'' (JDict [(''access_token'', JStr ''a1''), (''refresh_token'', JStr '''')]))])
      token0 [] world0))) = ''refresh0''"
proof -
  let ?r = "json_response 200 ''..'' (JDict [(''access_token'', JStr ''a1''), (''refresh_token'', JStr '''')])"
  have h1: "scripted [Inr ?r] (sent world0) (refresh_request token0 []) = Inr ?r"
    by (simp add: scripted_def world0_def)
  have h2: "status_code ?r = 200"
    by (simp add: json_response_def)
  have e: "extract_value (JDict [(''access_token'', JStr ''a1''), (''refresh_token'', JStr '''')])
             (refresh_token_path token0) = Some ''''"
    by (simp add: token0_def Token_init_def extract_value_def dict_get_def)
  have a: "refresh_token token0 = ''refresh0''" "json_of ?r = Some (JDict [(''access_token'', JStr ''a1''), (''refresh_token'', JStr '''')])"
    by (simp_all add: token0_def Token_init_def json_response_def)
  from refresh_token_replaced_only_if_nonempty[where tr="scripted [Inr ?r]" and w=world0 and t=token0 and hs="[]", OF h1 h2] h1 h2 e a show ?thesis by simp
qed

lemma condition_match_spec: "condition_match c r = spec_matches c r"
  by (auto simp: condition_match_def spec_matches_def spec_status_clause_def
      spec_message_clause_def Let_def list_ex_iff split: option.splits list.splits)

lemma match_conditions_length: "length (match_conditions r crs) = length crs"
  by (induction crs) simp_all

lemma match_conditions_nth:
  "i < length crs \<Longrightarrow>
     match_conditions r crs ! i =
       (if condition_match (cr_condition (crs ! i)) r
        then (crs ! i)\<lparr>cr_results := cr_results (crs ! i) @ [body_text r]\<rparr> else crs ! i)"
proof (induction crs arbitrary: i)
  case Nil
  then show ?case by simp
next
  case (Cons cr crs)
  then show ?case by (cases i) simp_all
qed

text \<open>
  Claim C7. A condition matches a response exactly when its status clause and its message
  clause both hold, a clause with an absent or empty list holding always; processing a
  response appends the body to the results of every matching condition and leaves the
  results of the others, and every condition, as they are.
\<close>
theorem condition_matching:
  "condition_match c r = spec_matches c r \<and>
   length (condition_results (process_response s r)) = length (condition_results s) \<and>
   (\<forall>i < length (condition_results s).
      cr_condition (condition_results (process_response s r) ! i) =
        cr_condition (condition_results s ! i) \<and>
      cr_results (condition_results (process_response s r) ! i) =
        (if spec_matches (cr_condition (condition_results s ! i)) r
         then cr_results (condition_results s ! i) @ [body_text r]
         else cr_results (condition_results s ! i)))"
  by (simp add: condition_match_spec process_response_def Let_def match_conditions_length
      match_conditions_nth)

lemma sublist_ok: "sublist ''ok'' ''it is ok''"
  by code_simp

theorem condition_matching_witness:
  "0 < length (condition_results watch_job) \<and>
   spec_matches (cr_condition (condition_results watch_job ! 0)) (plain_response 200 ''it is ok'') \<and>
   \<not> spec_matches (cr_condition (condition_results watch_job ! 0)) (plain_response 200 ''fail'') \<and>
   cr_results (condition_results (process_response watch_job (plain_response 200 ''it is ok'')) ! 0)
     = [''it is ok''] \<and>
   cr_results (condition_results (process_response watch_job (plain_response 200 ''fail'')) ! 0)
     = []"
proof -
  have c: "condition_results watch_job =
      [\<lparr>cr_condition = \<lparr>status_codes = Some [200], messages = Some [''ok''],
               cond_output_file = Some ''hits.txt''\<rparr>, cr_results = []\<rparr>]"
    by (simp add: watch_job_def Pyllow_init_def Let_def)
  have nf: "\<not> sublist ''ok'' ''fail''" by code_simp
  have y: "spec_matches (cr_condition (condition_results watch_job ! 0)) (plain_response 200 ''it is ok'')"
    using sublist_ok
    by (simp add: c spec_matches_def spec_status_clause_def spec_message_clause_def plain_response_def)
  have n: "\<not> spec_matches (cr_condition (condition_results watch_job ! 0)) (plain_response 200 ''fail'')"
    using nf
    by (simp add: c spec_matches_def spec_status_clause_def spec_message_clause_def plain_response_def)
  have l: "0 < length (condition_results watch_job)" by (simp add: c)
  from condition_matching[where s=watch_job and r="plain_response 200 ''it is ok''"] l y
  have a: "cr_results (condition_results (process_response watch_job (plain_response 200 ''it is ok'')) ! 0)
     = cr_results (condition_results watch_job ! 0) @ [body_text (plain_response 200 ''it is ok'')]"
    by simp
  from condition_matching[where s=watch_job and r="plain_response 200 ''fail''"] l n
  have b: "cr_results (condition_results (process_response watch_job (plain_response 200 ''fail'')) ! 0)
     = cr_results (condition_results watch_job ! 0)"
    by simp
  from l y n a b show ?thesis by (simp add: c plain_response_def)
qed

lemma length_concat_replicate: "length (concat (replicate n xs)) = n * length xs"
  by (induction n) simp_all

lemma Pyllow_init_fields:
  "http_method (Pyllow_init up m u hs ps qs tok so ofile conds st vs lp al) = m"
  "loops (Pyllow_init up m u hs ps qs tok so ofile conds st vs lp al) = lp"
  "sleep_time (Pyllow_init up m u hs ps qs tok so ofile conds st vs lp al) = st"
  "completed_requests (Pyllow_init up m u hs ps qs tok so ofile conds st vs lp al) = 0"
  "token (Pyllow_init up m u hs ps qs tok so ofile conds st vs lp al) = tok"
  "payloads (Pyllow_init up m u hs ps qs tok so ofile conds st vs lp al) =
     (case ps of None \<Rightarrow> [[]] | Some [] \<Rightarrow> [[]] | Some (x # xs) \<Rightarrow> x # xs)"
  "total_requests (Pyllow_init up m u hs ps qs tok so ofile conds st vs lp al) =
     (if up m = ''POST''
      then int (length (payloads (Pyllow_init up m u hs ps qs tok so ofile conds st vs lp al))) * lp
      else lp)"
  by (simp_all add: Pyllow_init_def Let_def)

lemma Pyllow_init_payloads_nonempty:
  "payloads (Pyllow_init up m u hs ps qs tok so ofile conds st vs lp al) \<noteq> []"
  by (simp add: Pyllow_init_fields split: option.splits list.splits)

text \<open>The payloads of a whole run, in the order of their dispatch.\<close>

lemma Pyllow_init_plan:
  assumes "s = Pyllow_init up m u hs ps qs tok so ofile conds st vs lp al"
    and "plan = concat (replicate (nat lp) (if up m = ''POST'' then payloads s else [[]]))"
  shows "run_requests up sl tr (s, w) = payload_loop up sl tr plan (s, w)"
    and "plan \<noteq> [] \<longrightarrow> total_requests s \<noteq> 0"
    and "1 \<le> lp \<longrightarrow> plan \<noteq> [] \<and> total_requests s = int (length plan)"
proof -
  let ?ps = "if up m = ''POST'' then payloads s else [[]]"
  have m: "http_method s = m" "loops s = lp" using assms(1) by (simp_all add: Pyllow_init_fields)
  show "run_requests up sl tr (s, w) = payload_loop up sl tr plan (s, w)"
    by (simp add: run_requests_as_payload_loop m assms(2))
  have ne: "?ps \<noteq> []" using assms(1) Pyllow_init_payloads_nonempty by simp
  then have pos: "0 < length ?ps" by (cases ?ps) simp_all
  have tot: "total_requests s = int (length ?ps) * lp"
    using assms(1) by (simp add: Pyllow_init_fields)
  have len: "length plan = nat lp * length ?ps"
    by (simp add: assms(2) length_concat_replicate)
  show c: "1 \<le> lp \<longrightarrow> plan \<noteq> [] \<and> total_requests s = int (length plan)"
  proof
    assume L: "1 \<le> lp"
    then have "0 < nat lp" by simp
    with pos have "0 < length plan" unfolding len by simp
    moreover have "int (length plan) = int (length ?ps) * lp"
      using L unfolding len by simp
    ultimately show "plan \<noteq> [] \<and> total_requests s = int (length plan)"
      using tot by simp
  qed
  show "plan \<noteq> [] \<longrightarrow> total_requests s \<noteq> 0"
  proof
    assume "plan \<noteq> []"
    then have "0 < length plan" by simp
    then have "0 < nat lp" unfolding len by (cases "nat lp") simp_all
    then have "1 \<le> lp" by simp
    with c have "plan \<noteq> [] \<and> total_requests s = int (length plan)" by blast
    then show "total_requests s \<noteq> 0" by auto
  qed
qed

lemma list_all2_replicate_take:
  assumes "list_all2 P (take (length cs) (replicate n x)) cs"
  shows "list_all (P x) cs"
proof -
  from assms have "length (take (length cs) (replicate n x)) = length cs"
    by (rule list_all2_lengthD)
  then have le: "length cs \<le> n" by simp
  have "P x (cs ! i)" if "i < length cs" for i
  proof -
    from that le have "i < n" by linarith
    with assms that show ?thesis
      by (simp add: list_all2_conv_all_nth)
  qed
  then show ?thesis by (simp add: list_all_length)
qed

lemma sleep_63_bits_half: "sleep_63_bits (1 / 2) = None"
  by (simp add: sleep_63_bits_def sleep_overflows_from_def)

lemma sleep_63_bits_huge: "sleep_63_bits 10000000000 = Some OverflowError"
  by (simp add: sleep_63_bits_def sleep_overflows_from_def)

lemma run_requests_eta:
  "run_requests up sl tr st =
     (fst (run_requests up sl tr st), fst (snd (run_requests up sl tr st)),
      snd (snd (run_requests up sl tr st)))"
  by simp

lemma first_dispatch_overflows:
  assumes "token s = None" and "total_requests s \<noteq> 0" and "sleep_time s = 10000000000"
  shows "dispatch_step up sleep_63_bits refuse_all p (s, world0) =
           (Some OverflowError, s\<lparr>completed_requests := completed_requests s + 1\<rparr>,
            \<lparr>sent = [build_request up s p],
             logged = [Error_Request_failed (RequestException ''connection refused''),
                       Error_during_request (RequestException ''connection refused''),
                       Info_Progress (of_int (completed_requests s + 1) / of_int (total_requests s) * 100)],
             slept = []\<rparr>)"
  using assms
  by (simp add: dispatch_step_def pyllow_make_request_def set_authorization_def make_request_def
      refuse_all_def world0_def log_progress_def Let_def sleep_63_bits_huge)

text \<open>
  Claim C5. For loops \<open>L \<ge> 1\<close>, construction sets \<open>total_requests\<close> to \<open>L\<close> times the number
  of stored payloads when the method is POST, which the code decides by comparing
  \<^verbatim>\<open>method.upper()\<close> with \<^verbatim>\<open>"POST"\<close>, and to \<open>L\<close> otherwise. The stored payloads are the
  supplied ones, or the single empty payload when none is supplied. Whatever the runtime
  does and however the request loop of \<^verbatim>\<open>run\<close> ends, it leaves \<open>total_requests\<close> as it was.
\<close>
theorem total_requests_fixed:
  assumes "1 \<le> L" and "s = Pyllow_init up m u hs ps qs tok so ofile conds st vs L al"
  shows "payloads s = (case ps of None \<Rightarrow> [[]] | Some [] \<Rightarrow> [[]] | Some (x # xs) \<Rightarrow> x # xs) \<and>
         total_requests s = (if up m = ''POST'' then L * int (length (payloads s)) else L) \<and>
         (\<forall>sl tr w res s1 w1. run_requests up sl tr (s, w) = (res, s1, w1) \<longrightarrow>
            total_requests s1 = total_requests s)"
proof -
  have "total_requests s1 = total_requests s"
    if "run_requests up sl tr (s, w) = (res, s1, w1)" for sl tr w res s1 w1
    using payload_loop_trace[OF that[unfolded run_requests_as_payload_loop]]
    by (simp add: same_plan_def)
  with assms show ?thesis
    by (simp add: Pyllow_init_fields)
qed

theorem total_requests_fixed_witness:
  "(1::int) \<le> 2 \<and> total_requests (post_job (Some [payload_x 1, payload_x 2]) 2 (1 / 2)) = 4 \<and>
   total_requests (fst (snd (run_requests upper_ascii sleep_63_bits refuse_all
      (post_job (Some [payload_x 1, payload_x 2]) 2 (1 / 2), world0)))) = 4"
proof -
  let ?s = "post_job (Some [payload_x 1, payload_x 2]) 2 (1 / 2)"
  have L: "(1::int) \<le> 2" by simp
  note t = total_requests_fixed[OF L post_job_def[of "Some [payload_x 1, payload_x 2]" 2 "1 / 2"]]
  from t have four: "total_requests ?s = 4" by (simp add: upper_POST)
  from t run_requests_eta[of upper_ascii sleep_63_bits refuse_all "(?s, world0)"]
  have "total_requests (fst (snd (run_requests upper_ascii sleep_63_bits refuse_all (?s, world0))))
          = total_requests ?s"
    by blast
  with four L show ?thesis by simp
qed

text \<open>
  Claim C6 as stated fails: with a sleep time of \<open>10^10\<close> seconds, which \<^verbatim>\<open>time.sleep\<close> refuses
  with \<^verbatim>\<open>OverflowError\<close>, the POST run with payloads \<open>[p1, p2]\<close> and two loops ends after its
  first dispatch: one request, for \<open>p1\<close>, and \<^verbatim>\<open>run\<close> raises.
\<close>
theorem post_run_stopped_by_sleep:
  "upper_ascii ''POST'' = ''POST'' \<and>
   total_requests (post_job (Some [payload_x 1, payload_x 2]) 2 10000000000) = 4 \<and>
   sleep_63_bits 10000000000 = Some OverflowError \<and>
   fst (run_requests upper_ascii sleep_63_bits refuse_all
          (post_job (Some [payload_x 1, payload_x 2]) 2 10000000000, world0)) = Some OverflowError \<and>
   completed_requests (fst (snd (run_requests upper_ascii sleep_63_bits refuse_all
          (post_job (Some [payload_x 1, payload_x 2]) 2 10000000000, world0)))) = 1 \<and>
   map rq_data (sent (snd (snd (run_requests upper_ascii sleep_63_bits refuse_all
          (post_job (Some [payload_x 1, payload_x 2]) 2 10000000000, world0))))) =
     [Some (payload_x 1)]"
proof -
  let ?s = "post_job (Some [payload_x 1, payload_x 2]) 2 10000000000"
  have f: "token ?s = None" "total_requests ?s = 4" "sleep_time ?s = 10000000000"
    "http_method ?s = ''POST''" "payloads ?s = [payload_x 1, payload_x 2]" "loops ?s = 2"
    "completed_requests ?s = 0"
    by (simp_all add: post_job_def Pyllow_init_fields upper_POST)
  have nz: "total_requests ?s \<noteq> 0" using f(2) by simp
  note d = first_dispatch_overflows[OF f(1) nz f(3), of upper_ascii "payload_x 1"]
  have "run_requests upper_ascii sleep_63_bits refuse_all (?s, world0) =
          dispatch_step upper_ascii sleep_63_bits refuse_all (payload_x 1) (?s, world0)"
    by (simp add: run_requests_def f numeral_2_eq_2 loop_body_def upper_POST d)
  with d f show ?thesis
    by (simp add: upper_POST sleep_63_bits_huge build_request_def)
qed

text \<open>
  Claim C6, amended. In a POST run where \<^verbatim>\<open>time.sleep\<close> accepts the sleep time (it is not
  called for a sleep time that is not positive), the request loop is one pass of the
  payload loop over the stored payloads repeated once per loop. It returns, having made
  one dispatch for every payload of that sequence, in its order: the requests it issued
  are the concatenation of what these dispatches sent, and without a token they are
  exactly the requests of these payloads. With payloads \<open>[p1, p2]\<close> and two loops the
  sequence is \<open>p1, p2, p1, p2\<close> and \<open>total_requests\<close> is 4.
\<close>
theorem post_run_dispatches_payloads_per_loop:
  assumes "up m = ''POST''"
    and "s = Pyllow_init up m u hs ps qs tok so ofile conds st vs L al"
    and "0 < st \<longrightarrow> sl st = None"
    and "plan = concat (replicate (nat L) (payloads s))"
  shows "run_requests up sl tr (s, w) = payload_loop up sl tr plan (s, w) \<and>
         (\<exists>s1 w1 chunks. run_requests up sl tr (s, w) = (None, s1, w1) \<and>
            sent w1 = sent w @ concat chunks \<and>
            list_all2 (\<lambda>p chunk. dispatched (Some p) chunk) plan chunks \<and>
            completed_requests s1 = int (length plan) \<and>
            (tok = None \<longrightarrow> sent w1 = sent w @ map (build_request up s) plan)) \<and>
         (ps = Some [p1, p2] \<and> L = 2 \<longrightarrow> plan = [p1, p2, p1, p2] \<and> total_requests s = 4)"
proof -
  have pl: "plan = concat (replicate (nat L) (if up m = ''POST'' then payloads s else [[]]))"
    using assms(1,4) by simp
  note P = Pyllow_init_plan[OF assms(2) pl]
  have eq: "run_requests up sl tr (s, w) = payload_loop up sl tr plan (s, w)" by (rule P(1))
  have f: "sleep_time s = st" "completed_requests s = 0" "token s = tok" "http_method s = m"
    using assms(2) by (simp_all add: Pyllow_init_fields)
  obtain res s1 w1 where r: "payload_loop up sl tr plan (s, w) = (res, s1, w1)"
    by (cases "payload_loop up sl tr plan (s, w)") auto
  have "fst (payload_loop up sl tr plan (s, w)) = None"
    using P(2) assms(3) f(1) by (intro payload_loop_returns) simp_all
  with r have none: "res = None" by simp
  note t = payload_loop_trace[OF r]
  from t none obtain chunks where
    c: "sent w1 = sent w @ concat chunks"
       "list_all2 (\<lambda>p chunk. dispatched (rq_data (build_request up s p)) chunk)
              (take (length chunks) plan) chunks"
       "completed_requests s1 = completed_requests s + int (length chunks)"
       "length chunks = length plan"
    by blast
  have d: "rq_data (build_request up s p) = Some p" for p
    using assms(1) f(4) by (simp add: build_request_def)
  from c(2,4) have l2: "list_all2 (\<lambda>p chunk. dispatched (Some p) chunk) plan chunks"
    by (simp add: d)
  from t none f have tk: "tok = None \<longrightarrow> sent w1 = sent w @ map (build_request up s) plan"
    by simp
  have run: "\<exists>s1 w1 chunks. run_requests up sl tr (s, w) = (None, s1, w1) \<and>
            sent w1 = sent w @ concat chunks \<and>
            list_all2 (\<lambda>p chunk. dispatched (Some p) chunk) plan chunks \<and>
            completed_requests s1 = int (length plan) \<and>
            (tok = None \<longrightarrow> sent w1 = sent w @ map (build_request up s) plan)"
    using eq r none c(1,3,4) l2 tk f(2)
    by (intro exI[of _ s1] exI[of _ w1] exI[of _ chunks]) simp
  have inst: "plan = [p1, p2, p1, p2] \<and> total_requests s = 4" if "ps = Some [p1, p2] \<and> L = 2"
    using that assms(1,2,4) by (simp add: Pyllow_init_fields numeral_2_eq_2)
  from eq run inst show ?thesis by blast
qed

theorem post_run_dispatches_payloads_per_loop_witness:
  "upper_ascii ''POST'' = ''POST'' \<and>
   (0::rat) < 1 / 2 \<and> sleep_63_bits (1 / 2) = None \<and>
   total_requests (post_job (Some [payload_x 1, payload_x 2]) 2 (1 / 2)) = 4 \<and>
   (\<exists>s1 w1. run_requests upper_ascii sleep_63_bits refuse_all
        (post_job (Some [payload_x 1, payload_x 2]) 2 (1 / 2), world0) = (None, s1, w1) \<and>
      completed_requests s1 = 4 \<and>
      map rq_data (sent w1) =
        [Some (payload_x 1), Some (payload_x 2), Some (payload_x 1), Some (payload_x 2)])"
proof -
  let ?s = "post_job (Some [payload_x 1, payload_x 2]) 2 (1 / 2)"
  let ?plan = "concat (replicate (nat 2) (payloads ?s))"
  have sl: "0 < (1 / 2 :: rat) \<longrightarrow> sleep_63_bits (1 / 2) = None"
    by (simp add: sleep_63_bits_half)
  note t = post_run_dispatches_payloads_per_loop[where up=upper_ascii and m="''POST''"
      and sl=sleep_63_bits and st="1 / 2" and tr=refuse_all and w=world0
      and ?p1.0="payload_x 1" and ?p2.0="payload_x 2",
      OF upper_POST post_job_def[of "Some [payload_x 1, payload_x 2]" 2 "1 / 2"] sl refl[of ?plan]]
  from t have plan: "?plan = [payload_x 1, payload_x 2, payload_x 1, payload_x 2]"
    and four: "total_requests ?s = 4" by simp_all
  have d: "rq_data (build_request upper_ascii ?s p) = Some p" for p
    by (simp add: build_request_def post_job_def Pyllow_init_fields upper_POST)
  from t[THEN conjunct2, THEN conjunct1] obtain s1 w1 where
    r: "run_requests upper_ascii sleep_63_bits refuse_all (?s, world0) = (None, s1, w1)"
    and c: "completed_requests s1 = int (length ?plan)"
    and s: "sent w1 = sent world0 @ map (build_request upper_ascii ?s) ?plan"
    by blast
  from s have "map rq_data (sent w1) =
        [Some (payload_x 1), Some (payload_x 2), Some (payload_x 1), Some (payload_x 2)]"
    unfolding plan by (simp add: world0_def d)
  moreover from c have "completed_requests s1 = 4" unfolding plan by simp
  ultimately have "\<exists>s1 w1. run_requests upper_ascii sleep_63_bits refuse_all (?s, world0) =
        (None, s1, w1) \<and> completed_requests s1 = 4 \<and>
      map rq_data (sent w1) =
        [Some (payload_x 1), Some (payload_x 2), Some (payload_x 1), Some (payload_x 2)]"
    using r by (intro exI[of _ s1] exI[of _ w1]) simp
  with sleep_63_bits_half four upper_POST show ?thesis by simp
qed

text \<open>
  Claim C9 as stated fails: with a sleep time that \<^verbatim>\<open>time.sleep\<close> refuses, the run of two
  loops ends in the first, with \<^verbatim>\<open>OverflowError\<close>, one request completed of two and a last
  progress record of 50 percent.
\<close>
theorem run_stopped_by_sleep:
  "(1::int) \<le> 2 \<and>
   sleep_63_bits 10000000000 = Some OverflowError \<and>
   fst (run_requests upper_ascii sleep_63_bits refuse_all (get_job None 2 10000000000, world0)) =
     Some OverflowError \<and>
   total_requests (fst (snd (run_requests upper_ascii sleep_63_bits refuse_all
     (get_job None 2 10000000000, world0)))) = 2 \<and>
   completed_requests (fst (snd (run_requests upper_ascii sleep_63_bits refuse_all
     (get_job None 2 10000000000, world0)))) = 1 \<and>
   last (logged (snd (snd (run_requests upper_ascii sleep_63_bits refuse_all
     (get_job None 2 10000000000, world0))))) = Info_Progress 50"
proof -
  let ?s = "get_job None 2 10000000000"
  have f: "token ?s = None" "total_requests ?s = 2" "sleep_time ?s = 10000000000"
    "http_method ?s = ''GET''" "loops ?s = 2" "completed_requests ?s = 0"
    by (simp_all add: get_job_def Pyllow_init_fields upper_GET)
  have nz: "total_requests ?s \<noteq> 0" using f(2) by simp
  note d = first_dispatch_overflows[OF f(1) nz f(3), of upper_ascii "[]"]
  have "run_requests upper_ascii sleep_63_bits refuse_all (?s, world0) =
          dispatch_step upper_ascii sleep_63_bits refuse_all [] (?s, world0)"
    by (simp add: run_requests_def f numeral_2_eq_2 loop_body_def upper_GET d)
  with d f show ?thesis
    by (simp add: sleep_63_bits_huge)
qed

text \<open>
  Claim C9, amended. Whatever the network does, a run constructed with loops \<open>L \<ge> 1\<close> in
  which \<^verbatim>\<open>time.sleep\<close> accepts the sleep time goes through its whole loop: it ends with
  \<open>completed_requests = total_requests\<close> and a last progress record of 100 percent. An
  exception that leaves the \<^verbatim>\<open>try\<close> body of a dispatch is logged by the handler and is
  not what leaves the step, and the dispatch is counted all the same.
\<close>
theorem dispatch_errors_swallowed:
  assumes "1 \<le> L" and "s = Pyllow_init up m u hs ps qs tok so ofile conds st vs L al"
    and "0 < st \<longrightarrow> sl st = None"
  shows "(\<exists>s1 w1. run_requests up sl tr (s, w) = (None, s1, w1) \<and>
            completed_requests s1 = total_requests s1 \<and>
            last (logged w1) = Info_Progress 100) \<and>
         (\<forall>p s0 w0 e sa wa.
            make_request_try up tr p (s0, w0) = (Inl e, sa, wa) \<longrightarrow>
              pyllow_make_request up tr p (s0, w0) =
                (sa, wa\<lparr>logged := logged wa @ [Error_during_request e]\<rparr>) \<and>
              completed_requests (fst (snd (dispatch_step up sl tr p (s0, w0)))) =
                completed_requests s0 + 1 \<and>
              fst (dispatch_step up sl tr p (s0, w0)) =
                (if total_requests s0 = 0 then Some ZeroDivisionError
                 else if 0 < sleep_time s0 then sl (sleep_time s0) else None))"
proof -
  let ?plan = "concat (replicate (nat L) (if up m = ''POST'' then payloads s else [[]]))"
  note P = Pyllow_init_plan[OF assms(2) refl[of ?plan]]
  from P(3) assms(1) have ne: "?plan \<noteq> []" and tot: "total_requests s = int (length ?plan)"
    by simp_all
  then have nz: "total_requests s \<noteq> 0" by auto
  have f: "sleep_time s = st" "completed_requests s = 0"
    using assms(2) by (simp_all add: Pyllow_init_fields)
  obtain res s1 w1 where r: "payload_loop up sl tr ?plan (s, w) = (res, s1, w1)"
    by (cases "payload_loop up sl tr ?plan (s, w)") auto
  have "fst (payload_loop up sl tr ?plan (s, w)) = None"
    using nz assms(3) f(1) by (intro payload_loop_returns) simp_all
  with r have none: "res = None" by simp
  from payload_loop_trace[OF r] none f tot
  have c: "completed_requests s1 = total_requests s" "total_requests s1 = total_requests s"
    by (auto simp: same_plan_def)
  from payload_loop_progress[OF r ne nz] c nz
  have "last (logged w1) = Info_Progress 100" by simp
  with r none c P(1)[of sl tr w]
  have a: "\<exists>s1 w1. run_requests up sl tr (s, w) = (None, s1, w1) \<and>
            completed_requests s1 = total_requests s1 \<and>
            last (logged w1) = Info_Progress 100"
    by (intro exI[of _ s1] exI[of _ w1]) simp
  have b: "pyllow_make_request up tr p (s0, w0) =
             (sa, wa\<lparr>logged := logged wa @ [Error_during_request e]\<rparr>)"
    if "make_request_try up tr p (s0, w0) = (Inl e, sa, wa)" for p s0 w0 e sa wa
    using that by (simp add: pyllow_make_request_def del: make_request_try.simps)
  have d: "completed_requests (fst (snd (dispatch_step up sl tr p (s0, w0)))) =
                completed_requests s0 + 1 \<and>
           fst (dispatch_step up sl tr p (s0, w0)) =
                (if total_requests s0 = 0 then Some ZeroDivisionError
                 else if 0 < sleep_time s0 then sl (sleep_time s0) else None)" for p s0 w0
  proof (cases "dispatch_step up sl tr p (s0, w0)")
    case (fields r0 sb wb)
    from dispatch_step_trace[OF fields] fields show ?thesis by simp
  qed
  from a b d show ?thesis by blast
qed

theorem dispatch_errors_swallowed_witness:
  "(1::int) \<le> 3 \<and>
   (0::rat) < 1 / 2 \<and> sleep_63_bits (1 / 2) = None \<and>
   (\<exists>s1 w1. run_requests upper_ascii sleep_63_bits refuse_all (get_job None 3 (1 / 2), world0) =
        (None, s1, w1) \<and>
      completed_requests s1 = total_requests s1 \<and> last (logged w1) = Info_Progress 100) \<and>
   make_request_try upper_ascii refuse_all [] (get_job None 3 (1 / 2), world0) =
     (Inl (RequestException ''connection refused''), get_job None 3 (1 / 2),
      \<lparr>sent = [build_request upper_ascii (get_job None 3 (1 / 2)) []],
       logged = [Error_Request_failed (RequestException ''connection refused'')], slept = []\<rparr>) \<and>
   pyllow_make_request upper_ascii refuse_all [] (get_job None 3 (1 / 2), world0) =
     (get_job None 3 (1 / 2),
      \<lparr>sent = [build_request upper_ascii (get_job None 3 (1 / 2)) []],
       logged = [Error_Request_failed (RequestException ''connection refused''),
                 Error_during_request (RequestException ''connection refused'')], slept = []\<rparr>) \<and>
   completed_requests (fst (snd (dispatch_step upper_ascii sleep_63_bits refuse_all []
      (get_job None 3 (1 / 2), world0)))) = 1 \<and>
   fst (dispatch_step upper_ascii sleep_63_bits refuse_all [] (get_job None 3 (1 / 2), world0)) = None"
proof -
  let ?s = "get_job None 3 (1 / 2)"
  have L: "(1::int) \<le> 3" by simp
  have sl: "0 < (1 / 2 :: rat) \<longrightarrow> sleep_63_bits (1 / 2) = None"
    by (simp add: sleep_63_bits_half)
  let ?wa = "\<lparr>sent = [build_request upper_ascii ?s []],
       logged = [Error_Request_failed (RequestException ''connection refused'')], slept = []\<rparr>"
  have f: "token ?s = None" "total_requests ?s = 3" "completed_requests ?s = 0"
    "sleep_time ?s = 1 / 2"
    by (simp_all add: get_job_def Pyllow_init_fields upper_GET)
  have m: "make_request_try upper_ascii refuse_all [] (?s, world0) =
     (Inl (RequestException ''connection refused''), ?s, ?wa)"
    by (simp add: set_authorization_def f make_request_def refuse_all_def world0_def Let_def)
  note d = dispatch_errors_swallowed[where up=upper_ascii and sl=sleep_63_bits and st="1 / 2"
      and tr=refuse_all and w=world0, OF L get_job_def[of None 3 "1 / 2"] sl]
  from d have a: "\<exists>s1 w1. run_requests upper_ascii sleep_63_bits refuse_all (?s, world0) =
        (None, s1, w1) \<and>
      completed_requests s1 = total_requests s1 \<and> last (logged w1) = Info_Progress 100"
    by (rule conjunct1)
  from d[THEN conjunct2] m
  have b: "pyllow_make_request upper_ascii refuse_all [] (?s, world0) =
     (?s, ?wa\<lparr>logged := logged ?wa @
        [Error_during_request (RequestException ''connection refused'')]\<rparr>) \<and>
     completed_requests (fst (snd (dispatch_step upper_ascii sleep_63_bits refuse_all [] (?s, world0))))
       = completed_requests ?s + 1 \<and>
     fst (dispatch_step upper_ascii sleep_63_bits refuse_all [] (?s, world0)) =
       (if total_requests ?s = 0 then Some ZeroDivisionError
        else if 0 < sleep_time ?s then sleep_63_bits (sleep_time ?s) else None)"
    by blast
  from L a m b f show ?thesis by (simp add: sleep_63_bits_half)
qed

text \<open>
  Claim C10. For loops \<open>L \<ge> 1\<close> the stored payload list is never empty, a missing or empty
  argument being replaced by the single empty payload; hence \<open>total_requests \<ge> 1\<close>, and
  the only exception that can leave the request loop is one of \<^verbatim>\<open>time.sleep\<close>, never the
  division of \<^verbatim>\<open>_log_progress\<close>. In a POST run without payloads every loop that is entered
  makes exactly one dispatch, of the empty payload: the requests issued are those of one
  such dispatch per completed request, at most \<open>L\<close> of them, and \<open>L\<close> when the loop returns.
\<close>
theorem payloads_never_empty:
  assumes "1 \<le> L" and "s = Pyllow_init up m u hs ps qs tok so ofile conds st vs L al"
    and "run_requests up sl tr (s, w) = (res, s1, w1)"
  shows "payloads s \<noteq> [] \<and>
         (ps = None \<or> ps = Some [] \<longrightarrow> payloads s = [[]]) \<and>
         1 \<le> total_requests s \<and>
         (res = None \<or> 0 < st \<and> res = sl st) \<and>
         (up m = ''POST'' \<and> (ps = None \<or> ps = Some []) \<longrightarrow>
            (\<exists>chunks. sent w1 = sent w @ concat chunks \<and>
               list_all (dispatched (Some [])) chunks \<and>
               int (length chunks) = completed_requests s1 \<and>
               length chunks \<le> nat L \<and>
               (res = None \<longrightarrow> length chunks = nat L) \<and>
               (res = None \<and> tok = None \<longrightarrow>
                  sent w1 = sent w @ replicate (nat L) (build_request up s []))))"
proof -
  let ?plan = "concat (replicate (nat L) (if up m = ''POST'' then payloads s else [[]]))"
  note P = Pyllow_init_plan[OF assms(2) refl[of ?plan]]
  from P(3) assms(1) have ne: "?plan \<noteq> []" and tot: "total_requests s = int (length ?plan)"
    by simp_all
  then have "0 < length ?plan" by blast
  with tot have one: "1 \<le> total_requests s" by linarith
  have f: "sleep_time s = st" "completed_requests s = 0" "token s = tok" "http_method s = m"
    using assms(2) by (simp_all add: Pyllow_init_fields)
  have pne: "payloads s \<noteq> []"
    using assms(2) Pyllow_init_payloads_nonempty by simp
  have single: "payloads s = [[]]" if "ps = None \<or> ps = Some []"
    using that assms(2) by (auto simp: Pyllow_init_fields)
  from assms(3) P(1)[of sl tr w]
  have r: "payload_loop up sl tr ?plan (s, w) = (res, s1, w1)" by simp
  note t = payload_loop_trace[OF r]
  from t one f have res: "res = None \<or> 0 < st \<and> res = sl st" by auto
  have post: "\<exists>chunks. sent w1 = sent w @ concat chunks \<and>
               list_all (dispatched (Some [])) chunks \<and>
               int (length chunks) = completed_requests s1 \<and>
               length chunks \<le> nat L \<and>
               (res = None \<longrightarrow> length chunks = nat L) \<and>
               (res = None \<and> tok = None \<longrightarrow>
                  sent w1 = sent w @ replicate (nat L) (build_request up s []))"
    if "up m = ''POST'' \<and> (ps = None \<or> ps = Some [])"
  proof -
    have cr: "concat (replicate n [[]]) = replicate n ([]::pydict)" for n
      by (induction n) simp_all
    from that single have plan: "?plan = replicate (nat L) []" by (simp add: cr)
    have d: "rq_data (build_request up s p) = Some p" for p
      using that f(4) by (simp add: build_request_def)
    from t obtain chunks where
      c: "sent w1 = sent w @ concat chunks"
         "list_all2 (\<lambda>p chunk. dispatched (rq_data (build_request up s p)) chunk)
              (take (length chunks) ?plan) chunks"
         "length chunks \<le> length ?plan"
         "completed_requests s1 = completed_requests s + int (length chunks)"
         "res = None \<longrightarrow> length chunks = length ?plan"
      by blast
    from c(2) have "list_all2 (\<lambda>p chunk. dispatched (Some p) chunk)
              (take (length chunks) (replicate (nat L) [])) chunks"
      by (simp add: d plan)
    then have la: "list_all (dispatched (Some [])) chunks"
      by (rule list_all2_replicate_take)
    from t f have tk: "res = None \<and> tok = None \<longrightarrow>
                  sent w1 = sent w @ replicate (nat L) (build_request up s [])"
      by (simp add: plan map_replicate)
    from c(1,3,4,5) la tk f(2) show ?thesis
      unfolding plan by (intro exI[of _ chunks]) simp
  qed
  from pne single one res post show ?thesis by blast
qed

theorem payloads_never_empty_witness:
  "(1::int) \<le> 2 \<and> upper_ascii ''POST'' = ''POST'' \<and>
   payloads (post_job None 2 (1 / 2)) = [[]] \<and>
   1 \<le> total_requests (post_job None 2 (1 / 2)) \<and>
   fst (run_requests upper_ascii sleep_63_bits refuse_all (post_job None 2 (1 / 2), world0)) = None \<and>
   map rq_data (sent (snd (snd (run_requests upper_ascii sleep_63_bits refuse_all
     (post_job None 2 (1 / 2), world0))))) = [Some [], Some []] \<and>
   completed_requests (fst (snd (run_requests upper_ascii sleep_63_bits refuse_all
     (post_job None 2 (1 / 2), world0)))) = 2"
proof -
  let ?s = "post_job None 2 (1 / 2)"
  let ?run = "run_requests upper_ascii sleep_63_bits refuse_all (?s, world0)"
  have L: "(1::int) \<le> 2" by simp
  have p: "upper_ascii ''POST'' = ''POST'' \<and>
           ((None :: pydict list option) = None \<or> (None :: pydict list option) = Some [])"
    by (simp add: upper_POST)
  note t = payloads_never_empty[where up=upper_ascii and sl=sleep_63_bits and tr=refuse_all
      and w=world0 and m="''POST''" and st="1 / 2" and tok=None,
      OF L post_job_def[of None 2 "1 / 2"] run_requests_eta]
  from t p have a: "payloads ?s = [[]]" by simp
  from t have b: "1 \<le> total_requests ?s" by simp
  from t have "fst ?run = None \<or> 0 < (1 / 2 :: rat) \<and> fst ?run = sleep_63_bits (1 / 2)" by simp
  then have c: "fst ?run = None" by (auto simp: sleep_63_bits_half)
  note t5 = t[THEN conjunct2, THEN conjunct2, THEN conjunct2, THEN conjunct2, THEN mp, OF p]
  from t5 obtain chunks where
    ch0: "sent (snd (snd ?run)) = sent world0 @ concat chunks \<and>
          list_all (dispatched (Some [])) chunks \<and>
          int (length chunks) = completed_requests (fst (snd ?run)) \<and>
          length chunks \<le> nat 2 \<and>
          (fst ?run = None \<longrightarrow> length chunks = nat 2) \<and>
          (fst ?run = None \<and> (None :: token option) = None \<longrightarrow>
             sent (snd (snd ?run)) =
               sent world0 @ replicate (nat 2) (build_request upper_ascii ?s []))" ..
  from ch0[THEN conjunct2, THEN conjunct2] c have
    ch: "int (length chunks) = completed_requests (fst (snd ?run))"
        "length chunks = nat 2"
        "sent (snd (snd ?run)) = sent world0 @ replicate (nat 2) (build_request upper_ascii ?s [])"
    by simp_all
  have d: "rq_data (build_request upper_ascii ?s []) = Some []"
    by (simp add: build_request_def post_job_def Pyllow_init_fields upper_POST)
  from ch(1,2) have e: "completed_requests (fst (snd ?run)) = 2" by simp
  from ch(3) d have "map rq_data (sent (snd (snd ?run))) = [Some [], Some []]"
    by (simp add: world0_def numeral_2_eq_2)
  with L p a b c e show ?thesis by simp
qed

lemma get_job_token0:
  "set_authorization (get_job (Some token0) 1 0) = get_job (Some token0) 1 0"
  "token (get_job (Some token0) 1 0) = Some token0"
  "headers (get_job (Some token0) 1 0) = []"
  "save_output (get_job (Some token0) 1 0)"
  "results (get_job (Some token0) 1 0) = []"
  "condition_results (get_job (Some token0) 1 0) = []"
  by (simp_all add: set_authorization_def get_job_def Pyllow_init_def Let_def token0_def
      Token_init_def truthy_def)

text \<open>
  Claim C1 as stated fails: when the refresh is answered with status 500 the dispatch ends
  after two requests, the first and the refresh; nothing is sent again and nothing is
  processed.
\<close>
theorem no_retry_when_refresh_fails:
  "token (get_job (Some token0) 1 0) = Some token0 \<and>
   refresh_refused (sent world0)
     (build_request upper_ascii (set_authorization (get_job (Some token0) 1 0)) []) =
     Inr (plain_response 401 ''unauthorized'') \<and>
   status_code (plain_response 401 ''unauthorized'') = 401 \<and>
   sent (snd (pyllow_make_request upper_ascii refresh_refused [] (get_job (Some token0) 1 0, world0))) =
     [build_request upper_ascii (get_job (Some token0) 1 0) [], refresh_request token0 []] \<and>
   results (fst (pyllow_make_request upper_ascii refresh_refused []
     (get_job (Some token0) 1 0, world0))) = []"
  by (simp add: get_job_token0 refresh_refused_def scripted_def world0_def plain_response_def
      pyllow_make_request_def make_request_def refresh_and_retry_def refresh_access_token_def
      Let_def)

text \<open>
  Claim C1, amended. When the first response of a dispatch has status 401, a token is
  present and the refresh succeeds (status 200 with a JSON body), exactly one more request
  is issued after the refresh: the first request again with the Authorization header set
  from the refreshed access token. Its response, whatever its status, is the one
  processed; nothing else is sent.
\<close>
theorem retry_once_after_refresh:
  assumes "token s = Some t"
    and "s1 = set_authorization s"
    and "rq1 = build_request up s1 payload"
    and "tr (sent w) rq1 = Inr r1" and "status_code r1 = 401"
    and "rfr = refresh_request t (headers s1)"
    and "tr (sent w @ [rq1]) rfr = Inr rr" and "status_code rr = 200" and "json_of rr = Some j"
    and "t1 = store_tokens t j"
    and "s2 = s1\<lparr>token := Some t1,
                  headers := AList.update ''Authorization'' (bearer (access_token t1)) (headers s1)\<rparr>"
    and "rq2 = build_request up s2 payload"
  shows "\<exists>w1. pyllow_make_request up tr payload (s, w) =
                 ((case tr (sent w @ [rq1, rfr]) rq2 of
                     Inr r2 \<Rightarrow> process_response s2 r2
                   | Inl e \<Rightarrow> s2), w1) \<and>
               sent w1 = sent w @ [rq1, rfr, rq2] \<and>
               rq2 = rq1\<lparr>rq_headers :=
                        AList.update ''Authorization'' (bearer (access_token t1)) (rq_headers rq1)\<rparr>"
proof -
  have tok1: "token s1 = Some t"
    using assms(1,2) by (simp add: set_authorization_def)
  have same: "rq2 = rq1\<lparr>rq_headers :=
                        AList.update ''Authorization'' (bearer (access_token t1)) (rq_headers rq1)\<rparr>"
    using assms(3,11,12) by (simp add: build_request_def)
  let ?w1 = "w\<lparr>sent := sent w @ [rq1]\<rparr>"
  let ?w2 = "w\<lparr>sent := sent w @ [rq1, rfr]\<rparr>"
  have m1: "make_request tr rq1 w = (Inr r1, ?w1)"
    using assms(4) by (rule make_request_Inr)
  have m2: "make_request tr rfr ?w1 = (Inr rr, ?w2)"
    using make_request_Inr[of tr ?w1 rfr rr] assms(7) by simp
  have rf: "refresh_access_token tr t (headers s1) ?w1 = (Inr (access_token t1), t1, ?w2)"
    using m2 assms(6,8,9,10) by (simp add: refresh_access_token_def Let_def)
  show ?thesis
  proof (cases "tr (sent w @ [rq1, rfr]) rq2")
    case (Inl e)
    from make_request_Inl[of tr ?w2 rq2 e] Inl obtain w3 where
      m3: "make_request tr rq2 ?w2 = (Inl e, w3)" and s3: "sent w3 = sent w @ [rq1, rfr, rq2]"
      by auto
    have "refresh_and_retry up tr payload t s1 ?w1 = (Inl e, s2, w3)"
      using rf m3 assms(11,12) by (simp add: refresh_and_retry_def Let_def)
    then have "pyllow_make_request up tr payload (s, w) =
                 (s2, w3\<lparr>logged := logged w3 @ [Error_during_request e]\<rparr>)"
      using m1 assms(2,3,5) tok1 by (simp add: pyllow_make_request_def Let_def)
    with Inl s3 same show ?thesis by simp
  next
    case (Inr r2)
    have m3: "make_request tr rq2 ?w2 = (Inr r2, w\<lparr>sent := sent w @ [rq1, rfr, rq2]\<rparr>)"
      using make_request_Inr[of tr ?w2 rq2 r2] Inr by simp
    have "refresh_and_retry up tr payload t s1 ?w1 = (Inr r2, s2, w\<lparr>sent := sent w @ [rq1, rfr, rq2]\<rparr>)"
      using rf m3 assms(11,12) by (simp add: refresh_and_retry_def Let_def)
    then have "pyllow_make_request up tr payload (s, w) =
                 (process_response s2 r2, w\<lparr>sent := sent w @ [rq1, rfr, rq2]\<rparr>)"
      using m1 assms(2,3,5) tok1 by (simp add: pyllow_make_request_def Let_def)
    with Inr same show ?thesis by simp
  qed
qed

theorem retry_once_after_refresh_witness:
  "token (get_job (Some token0) 1 0) = Some token0 \<and>
   status_code (plain_response 401 ''unauthorized'') = 401 \<and>
   (\<exists>w1. pyllow_make_request upper_ascii refresh_granted [] (get_job (Some token0) 1 0, world0) =
      (process_response
         ((get_job (Some token0) 1 0)
            \<lparr>token := Some (token0\<lparr>access_token := Some ''tok123''\<rparr>),
             headers := [(''Authorization'', ''Bearer tok123'')]\<rparr>)
         (plain_response 401 ''still unauthorized''), w1) \<and>
      sent w1 =
        [build_request upper_ascii (get_job (Some token0) 1 0) [],
         refresh_request token0 [],
         (build_request upper_ascii (get_job (Some token0) 1 0) [])
            \<lparr>rq_headers := [(''Authorization'', ''Bearer tok123'')]\<rparr>])"
proof -
  let ?s = "get_job (Some token0) 1 0"
  let ?rq1 = "build_request upper_ascii ?s []"
  let ?rfr = "refresh_request token0 []"
  let ?j = "JDict [(''access_token'', JStr ''tok123'')]"
  let ?rr = "json_response 200 ''(token document)'' ?j"
  let ?t1 = "token0\<lparr>access_token := Some ''tok123''\<rparr>"
  let ?s2 = "?s\<lparr>token := Some ?t1, headers := [(''Authorization'', ''Bearer tok123'')]\<rparr>"
  have a1: "token ?s = Some token0" by (simp add: get_job_token0)
  have a2: "?s = set_authorization ?s" by (simp add: get_job_token0)
  have a3: "?rq1 = build_request upper_ascii ?s []" by simp
  have a4: "refresh_granted (sent world0) ?rq1 = Inr (plain_response 401 ''unauthorized'')"
    by (simp add: refresh_granted_def scripted_def world0_def)
  have a5: "status_code (plain_response 401 ''unauthorized'') = 401"
    by (simp add: plain_response_def)
  have a6: "?rfr = refresh_request token0 (headers ?s)" by (simp add: get_job_token0)
  have a7: "refresh_granted (sent world0 @ [?rq1]) ?rfr = Inr ?rr"
    by (simp add: refresh_granted_def scripted_def world0_def)
  have a8: "status_code ?rr = 200" and a9: "json_of ?rr = Some ?j"
    by (simp_all add: json_response_def)
  have a10: "?t1 = store_tokens token0 ?j"
    by (simp add: store_tokens_def token0_def Token_init_def extract_value_def dict_get_def
        truthy_def Let_def)
  have a11: "?s2 = ?s\<lparr>token := Some ?t1,
       headers := AList.update ''Authorization'' (bearer (access_token ?t1)) (headers ?s)\<rparr>"
    by (simp add: get_job_token0 bearer_def)
  have a12: "build_request upper_ascii ?s2 [] = build_request upper_ascii ?s2 []" by simp
  have r: "refresh_granted (sent world0 @ [?rq1, ?rfr]) (build_request upper_ascii ?s2 []) =
             Inr (plain_response 401 ''still unauthorized'')"
    by (simp add: refresh_granted_def scripted_def world0_def)
  have h: "rq_headers ?rq1 = []" by (simp add: build_request_def get_job_token0)
  have w0: "sent world0 = []" by (simp add: world0_def)
  note t = retry_once_after_refresh[where tr=refresh_granted and w=world0 and payload="[]"
      and up=upper_ascii, OF a1 a2 a3 a4 a5 a6 a7 a8 a9 a10 a11 a12]
  from t r h w0 a1 a5 show ?thesis
    by (auto simp: bearer_def)
qed

end
